theory Spec2Isabelle
  imports Main "HOL-Library.Multiset"
begin

section \<open>JavaScript values\<close>

text \<open>
  The values that flow through \<^verbatim>\<open>BaseComponent\<close> (src/components/base/Base.js).
  Arrays and other objects are references: \<open>JArr a\<close> is the array stored at address
  \<open>a\<close> of the heap, so that two arrays with equal contents are still different values
  for \<^verbatim>\<open>===\<close>, and a \<^verbatim>\<open>push\<close> or \<^verbatim>\<open>splice\<close> is seen through every
  reference. \<open>JObj\<close> is any other object that cannot be called, \<open>JFun\<close> a function of
  the host, and \<open>JBuiltin\<close> an object of the language itself, named by its path:
  \<^verbatim>\<open>Object.prototype\<close> and the methods it holds, such as
  \<^verbatim>\<open>Object.prototype.hasOwnProperty\<close>. Numbers are the integers and \<open>JNaN\<close>; the code
  does no arithmetic on values, it only tests them for truthiness and identity.
\<close>

datatype jsval =
    JUndefined
  | JNull
  | JBool bool
  | JNum int
  | JNaN
  | JStr string
  | JArr nat
  | JObj nat
  | JFun nat
  | JBuiltin string

text \<open>\<^verbatim>\<open>!!v\<close>: the falsy values are undefined, null, false, 0, NaN and the empty string.\<close>

fun truthy :: "jsval \<Rightarrow> bool" where
  "truthy JUndefined = False"
| "truthy JNull = False"
| "truthy (JBool b) = b"
| "truthy (JNum n) = (n \<noteq> 0)"
| "truthy JNaN = False"
| "truthy (JStr s) = (s \<noteq> [])"
| "truthy (JArr a) = True"
| "truthy (JObj a) = True"
| "truthy (JFun a) = True"
| "truthy (JBuiltin n) = True"

text \<open>\<^verbatim>\<open>a === b\<close>: identity of primitives and of references, except that NaN equals nothing.\<close>

definition strict_eq :: "jsval \<Rightarrow> jsval \<Rightarrow> bool" where
  "strict_eq a b = (if a = JNaN then False else a = b)"

text \<open>\<^verbatim>\<open>_isArray(v)\<close>.\<close>

fun isArray :: "jsval \<Rightarrow> bool" where
  "isArray (JArr a) = True"
| "isArray v = False"

text \<open>Whether a value is an object (a function included), and whether it can be called.\<close>

fun is_object :: "jsval \<Rightarrow> bool" where
  "is_object (JArr a) = True"
| "is_object (JObj a) = True"
| "is_object (JFun a) = True"
| "is_object (JBuiltin n) = True"
| "is_object v = False"

definition object_prototype :: jsval where
  "object_prototype = JBuiltin ''Object.prototype''"

definition hasOwnProperty_builtin :: jsval where
  "hasOwnProperty_builtin = JBuiltin ''Object.prototype.hasOwnProperty''"

fun callable :: "jsval \<Rightarrow> bool" where
  "callable (JFun a) = True"
| "callable (JBuiltin n) = (n \<noteq> ''Object.prototype'')"
| "callable v = False"

text \<open>The decimal numeral of a natural number, as in the index \<^verbatim>\<open>"12"\<close> of an array.\<close>

fun decimal :: "nat \<Rightarrow> string" where
  "decimal n =
     (if n < 10 then [''0123456789'' ! n]
      else decimal (n div 10) @ [''0123456789'' ! (n mod 10)])"

declare decimal.simps [simp del]

datatype error = TypeError | ReferenceError | DOMException

section \<open>The component instance and its surroundings\<close>

text \<open>
  \<^verbatim>\<open>component.customDefaultValue\<close>: absent, a string that \<^verbatim>\<open>eval\<close> runs, or a logic tree
  given to \<^verbatim>\<open>FormioUtils.jsonLogic.apply\<close>. Both evaluators are outside the file; an
  expression is the function from the data object (its own properties and its prototype)
  and the heap to what the evaluation leaves in \<^verbatim>\<open>value\<close> (\<open>Some v\<close>), or \<open>None\<close> when the
  evaluation throws. Expressions are taken to be free of side effects.
\<close>

datatype expr =
    NoExpr
  | StringExpr "(string \<Rightarrow> jsval option) \<Rightarrow> jsval \<Rightarrow> (nat \<Rightarrow> jsval list) \<Rightarrow> jsval option"
  | LogicExpr "(string \<Rightarrow> jsval option) \<Rightarrow> jsval \<Rightarrow> (nat \<Rightarrow> jsval list) \<Rightarrow> jsval option"

text \<open>
  The fields of the descriptor \<^verbatim>\<open>this.component\<close> that the modelled methods read. A
  descriptor without \<^verbatim>\<open>key\<close> reads and writes the property \<^verbatim>\<open>"undefined"\<close> of the data
  object, so the key is always a string here.
\<close>

record descriptor =
  c_input :: bool
  c_multiple :: bool
  c_key :: string
  c_defaultValue :: jsval
  c_customDefaultValue :: expr
  c_inputMask :: bool
  c_disabled :: bool

text \<open>The records pushed by \<^verbatim>\<open>on\<close> (line 218) and by \<^verbatim>\<open>addEventListener\<close> (line 745).\<close>

record listener_rec =
  l_type :: string
  l_listener :: nat
  l_internal :: bool

record handler_rec =
  h_type :: string
  h_func :: nat

text \<open>
  A rendered input, made by \<^verbatim>\<open>document.createElement\<close> (lines 724 and 783): the node's
  identity and its \<^verbatim>\<open>value\<close> property. The property of a DOM input always holds a
  string: assigning a value stores a string made from it, and a freshly created input
  holds the empty string.
\<close>

record input_el =
  el_node :: nat
  el_value :: string

text \<open>
  The instance together with the part of the world its methods touch.
  \<^item> The data object is an ordinary object: \<open>data\<close> are its own properties and
    \<open>data_proto\<close> is its prototype, \<^verbatim>\<open>Object.prototype\<close> for a plain object. \<open>inherited\<close>
    gives what an object with a given prototype reads under a name it has no own property
    for (undefined when nothing is inherited under that name), \<open>ref_length\<close> the
    truthiness of the \<^verbatim>\<open>length\<close> of an object other than an array, \<open>ref_each\<close> the
    number of times \<^verbatim>\<open>_each\<close> calls back on such an object, and \<open>host_call\<close> what calling
    a function other than the built-in \<^verbatim>\<open>hasOwnProperty\<close> on the data object with a name
    gives: an error thrown, or the truthiness of the result. These four belong to the
    engine and the host and are taken as given.
  \<^item> \<open>stored\<close> is the string an input's \<^verbatim>\<open>value\<close> property holds after a value was
    assigned to it (from the heap at that moment and the value); it belongs to the DOM
    and is taken as given.
  \<^item> \<open>heap\<close> are the arrays, \<open>fresh\<close> the next unused identity (of an array, a node or a
    closure).
  \<^item> \<open>events\<close> says whether \<^verbatim>\<open>options.events\<close> was supplied, \<open>hub\<close> is that emitter's
    list of registrations, \<open>off_log\<close> the calls of its \<^verbatim>\<open>off\<close> so far and \<open>emitted\<close> the
    log of what was emitted on it.
  \<^item> \<open>dom_listeners\<close> are the raw listeners attached to nodes, as (node, event, callback),
    and \<open>removed_log\<close> the calls of \<^verbatim>\<open>window.removeEventListener\<close> so far, as (event,
    callback).
  \<^item> \<open>clock\<close> is the time in milliseconds and \<open>timer\<close> the pending call of the debounced
    \<^verbatim>\<open>triggerChange\<close>: its deadline and the argument of the last call.
  \<^item> \<open>this_value\<close> is the field \<^verbatim>\<open>this.value\<close>.
\<close>

record inst =
  component :: descriptor
  readOnly :: bool
  events :: bool
  data :: "string \<Rightarrow> jsval option"
  heap :: "nat \<Rightarrow> jsval list"
  fresh :: nat
  inputs :: "input_el list"
  this_value :: jsval
  pristine :: bool
  tbody :: bool
  disabled :: bool
  inputMask :: bool
  eventListeners :: "listener_rec list"
  eventHandlers :: "handler_rec list"
  hub :: "(string \<times> nat) list"
  dom_listeners :: "(nat \<times> string \<times> nat) list"
  clock :: nat
  timer :: "(nat \<times> bool) option"
  emitted :: "(string \<times> jsval \<times> bool) list"
  data_proto :: jsval
  inherited :: "jsval \<Rightarrow> string \<Rightarrow> jsval"
  ref_length :: "jsval \<Rightarrow> bool"
  ref_each :: "jsval \<Rightarrow> nat"
  host_call :: "jsval \<Rightarrow> string \<Rightarrow> error + bool"
  stored :: "(nat \<Rightarrow> jsval list) \<Rightarrow> jsval \<Rightarrow> string"
  off_log :: "(string \<times> nat) list"
  removed_log :: "(string \<times> nat) list"

text \<open>
  A method ends normally or by throwing; either way the mutations made so far stay. The
  outcome of a call is the state it leaves and the error thrown, if any.
\<close>

type_synonym outcome = "inst \<times> error option"

definition done_ok :: "inst \<Rightarrow> outcome" where
  "done_ok st = (st, None)"

definition throw :: "error \<Rightarrow> inst \<Rightarrow> outcome" where
  "throw e st = (st, Some e)"

definition and_then :: "outcome \<Rightarrow> (inst \<Rightarrow> outcome) \<Rightarrow> outcome" where
  "and_then r f = (case snd r of None \<Rightarrow> f (fst r) | Some e \<Rightarrow> r)"

section \<open>The data object\<close>

text \<open>
  What the data object reads through its prototype under a name it has no own property
  for, other than \<^verbatim>\<open>__proto__\<close>. An array as prototype contributes its elements under
  their indices and its length; everything else comes from \<open>inherited\<close>.
\<close>

definition via_proto :: "inst \<Rightarrow> string \<Rightarrow> jsval" where
  "via_proto st k =
     (case data_proto st of
        JArr a \<Rightarrow>
          (case find (\<lambda>i. decimal i = k) [0..<length (heap st a)] of
             Some i \<Rightarrow> heap st a ! i
           | None \<Rightarrow>
               (if k = ''length'' then JNum (int (length (heap st a)))
                else inherited st (JArr a) k))
      | p \<Rightarrow> inherited st p k)"

text \<open>
  \<^verbatim>\<open>this.data[k]\<close>: the own property if there is one; otherwise nothing when the
  prototype is null, the prototype itself for \<^verbatim>\<open>__proto__\<close> (the accessor of
  \<^verbatim>\<open>Object.prototype\<close>, which every object other than null is taken to inherit), and what
  is inherited under \<open>k\<close> for any other name.
\<close>

definition get_prop :: "inst \<Rightarrow> string \<Rightarrow> jsval" where
  "get_prop st k =
     (case data st k of
        Some v \<Rightarrow> v
      | None \<Rightarrow>
          (if data_proto st = JNull then JUndefined
           else if k = ''__proto__'' then data_proto st
           else via_proto st k))"

text \<open>
  \<^verbatim>\<open>this.data[k] = v\<close>: an own property is updated. Without one, assigning to
  \<^verbatim>\<open>__proto__\<close> runs the accessor's setter, which replaces the prototype when \<open>v\<close> is an
  object or null and ignores every other value; assigning to any other name creates the
  own property. The data object is taken to be extensible and the properties it inherits
  to be writable, as those of \<^verbatim>\<open>Object.prototype\<close> are.
\<close>

definition set_prop :: "string \<Rightarrow> jsval \<Rightarrow> inst \<Rightarrow> inst" where
  "set_prop k v st =
     (case data st k of
        Some w \<Rightarrow> st\<lparr>data := (data st)(k \<mapsto> v)\<rparr>
      | None \<Rightarrow>
          (if k = ''__proto__'' \<and> data_proto st \<noteq> JNull then
             (if is_object v \<or> v = JNull then st\<lparr>data_proto := v\<rparr> else st)
           else st\<lparr>data := (data st)(k \<mapsto> v)\<rparr>))"

text \<open>
  \<^verbatim>\<open>this.data.hasOwnProperty(k)\<close> (lines 464 and 978): the method is looked up on the
  data object like any property. The built-in one tells whether \<open>k\<close> is an own property;
  another function is the host's; anything else cannot be called, a TypeError.
\<close>

definition has_own :: "inst \<Rightarrow> string \<Rightarrow> error + bool" where
  "has_own st k =
     (let m = get_prop st ''hasOwnProperty''
      in if m = hasOwnProperty_builtin then Inr (data st k \<noteq> None)
         else if callable m then host_call st m k
         else Inl TypeError)"

text \<open>\<^verbatim>\<open>value[i]\<close> for an array \<^verbatim>\<open>value\<close>: undefined past the end.\<close>

definition index_at :: "(nat \<Rightarrow> jsval list) \<Rightarrow> jsval \<Rightarrow> nat \<Rightarrow> jsval" where
  "index_at h v i =
     (case v of
        JArr a \<Rightarrow> (if i < length (h a) then h a ! i else JUndefined)
      | _ \<Rightarrow> JUndefined)"

text \<open>A new array literal, and a new node or closure.\<close>

definition alloc :: "jsval list \<Rightarrow> inst \<Rightarrow> nat \<times> inst" where
  "alloc xs st = (fresh st, st\<lparr>heap := (heap st)(fresh st := xs), fresh := Suc (fresh st)\<rparr>)"

definition new_id :: "inst \<Rightarrow> nat \<times> inst" where
  "new_id st = (fresh st, st\<lparr>fresh := Suc (fresh st)\<rparr>)"

definition window :: nat where
  "window = 0"

section \<open>A plain data object in a browser\<close>

text \<open>
  The names \<^verbatim>\<open>Object.prototype\<close> holds besides \<^verbatim>\<open>__proto__\<close>, all of them functions, and
  what a plain object inherits under them. In the examples the data object has no other
  prototype.
\<close>

definition object_members :: "string list" where
  "object_members =
     [''constructor'', ''hasOwnProperty'', ''isPrototypeOf'', ''propertyIsEnumerable'',
      ''toLocaleString'', ''toString'', ''valueOf'', ''__defineGetter__'',
      ''__defineSetter__'', ''__lookupGetter__'', ''__lookupSetter__'']"

definition plain_inherited :: "jsval \<Rightarrow> string \<Rightarrow> jsval" where
  "plain_inherited p k =
     (if k \<in> set object_members then JBuiltin (''Object.prototype.'' @ k) else JUndefined)"

text \<open>
  The \<^verbatim>\<open>length\<close> of the methods of \<^verbatim>\<open>Object.prototype\<close> is their number of parameters:
  none for \<^verbatim>\<open>toString\<close>, \<^verbatim>\<open>toLocaleString\<close> and \<^verbatim>\<open>valueOf\<close>, some for the others.
  None of these objects has an enumerable property, so that \<^verbatim>\<open>_each\<close> never calls back
  on them; the examples hold no other object that is not an array.
\<close>

definition plain_length :: "jsval \<Rightarrow> bool" where
  "plain_length v =
     (case v of
        JBuiltin n \<Rightarrow>
          n \<in> set (map (\<lambda>k. ''Object.prototype.'' @ k)
                 [''constructor'', ''hasOwnProperty'', ''isPrototypeOf'', ''propertyIsEnumerable'',
                  ''__defineGetter__'', ''__defineSetter__'', ''__lookupGetter__'',
                  ''__lookupSetter__''])
      | _ \<Rightarrow> False)"

text \<open>
  In the examples nothing but the built-in method is ever called as \<^verbatim>\<open>hasOwnProperty\<close>;
  their host functions answer false.
\<close>

definition plain_call :: "jsval \<Rightarrow> string \<Rightarrow> error + bool" where
  "plain_call m k = Inr False"

text \<open>
  \<^verbatim>\<open>String(v)\<close> for the primitive values, which is what a text input's \<^verbatim>\<open>value\<close> holds
  after \<open>v\<close> was assigned (null gives the empty string there). Integers are written in
  decimal, as JavaScript does below \<open>10\<^sup>2\<^sup>1\<close>. An array gives its elements separated by
  commas, null and undefined elements giving nothing; objects, and arrays inside the
  array, are written \<^verbatim>\<open>[object Object]\<close>, which is right for plain objects only.
\<close>

fun prim_string :: "jsval \<Rightarrow> string" where
  "prim_string JUndefined = ''undefined''"
| "prim_string JNull = []"
| "prim_string (JBool b) = (if b then ''true'' else ''false'')"
| "prim_string (JNum n) = (if n < 0 then ''-'' @ decimal (nat (- n)) else decimal (nat n))"
| "prim_string JNaN = ''NaN''"
| "prim_string (JStr s) = s"
| "prim_string v = ''[object Object]''"

fun join_commas :: "string list \<Rightarrow> string" where
  "join_commas [] = []"
| "join_commas [s] = s"
| "join_commas (s # rest) = s @ '','' @ join_commas rest"

definition js_string :: "(nat \<Rightarrow> jsval list) \<Rightarrow> jsval \<Rightarrow> string" where
  "js_string h v =
     (case v of
        JArr a \<Rightarrow>
          join_commas (map (\<lambda>x. if x = JUndefined then [] else prim_string x) (h a))
      | _ \<Rightarrow> prim_string v)"

text \<open>
  The constructor (lines 26-182) over a plain data object with the own properties \<open>d\<close>,
  in a browser with no arrays, listeners or timers yet.
\<close>

definition init :: "descriptor \<Rightarrow> bool \<Rightarrow> bool \<Rightarrow> (string \<Rightarrow> jsval option) \<Rightarrow> inst" where
  "init c ro ev d =
     \<lparr>component = c, readOnly = ro, events = ev, data = d, heap = (\<lambda>a. []), fresh = 1,
      inputs = [], this_value = JNull, pristine = True, tbody = False, disabled = False,
      inputMask = False, eventListeners = [], eventHandlers = [], hub = [],
      dom_listeners = [], clock = 0, timer = None, emitted = [],
      data_proto = object_prototype, inherited = plain_inherited, ref_length = plain_length,
      ref_each = (\<lambda>v. 0), host_call = plain_call, stored = js_string, off_log = [],
      removed_log = []\<rparr>"

section \<open>Default values\<close>

text \<open>
  The getter \<^verbatim>\<open>defaultValue\<close> (lines 399-436). A failing string expression gives null. A
  failing logic tree reaches \<^verbatim>\<open>catch (err)\<close>, whose body reads the undeclared \<^verbatim>\<open>e\<close>
  (line 430), so the getter throws a ReferenceError.
\<close>

definition defaultValue :: "inst \<Rightarrow> error + jsval" where
  "defaultValue st =
     (if truthy (c_defaultValue (component st)) then Inr (c_defaultValue (component st))
      else (case c_customDefaultValue (component st) of
              NoExpr \<Rightarrow> Inr (JStr [])
            | StringExpr f \<Rightarrow>
                (case f (data st) (data_proto st) (heap st) of
                   Some v \<Rightarrow> Inr v
                 | None \<Rightarrow> Inr JNull)
            | LogicExpr f \<Rightarrow>
                (case f (data st) (data_proto st) (heap st) of
                   Some v \<Rightarrow> Inr v
                 | None \<Rightarrow> Inl ReferenceError)))"

section \<open>Reading and writing the value\<close>

text \<open>
  \<^verbatim>\<open>getValue\<close> (lines 993-1007), with \<^verbatim>\<open>getValueAt\<close> (line 990) reading the string an
  input holds. The loop returns the first input's value at once for a single-valued
  component and collects every input's value otherwise; with no input the loop body
  never runs and the fresh empty array is cached and returned.
\<close>

fun getValue_loop :: "bool \<Rightarrow> input_el list \<Rightarrow> jsval list \<Rightarrow> jsval list + jsval" where
  "getValue_loop m [] values = Inl values"
| "getValue_loop m (i # rest) values =
     (if m then getValue_loop m rest (values @ [JStr (el_value i)]) else Inr (JStr (el_value i)))"

definition getValue :: "inst \<Rightarrow> jsval \<times> inst" where
  "getValue st =
     (if c_input (component st) then
        (case getValue_loop (c_multiple (component st)) (inputs st) [] of
           Inr v \<Rightarrow> (v, st\<lparr>this_value := v\<rparr>)
         | Inl values \<Rightarrow>
             (let (a, s) = alloc values st in (JArr a, s\<lparr>this_value := JArr a\<rparr>)))
      else (JUndefined, st))"

text \<open>
  \<^verbatim>\<open>triggerChange\<close> is \<^verbatim>\<open>_debounce(onChange, 200)\<close> (line 156): a call (re)starts the
  200 ms timer and keeps the argument of the last call.
\<close>

definition triggerChange :: "bool \<Rightarrow> inst \<Rightarrow> inst" where
  "triggerChange noValidate st = st\<lparr>timer := Some (clock st + 200, noValidate)\<rparr>"

text \<open>
  \<^verbatim>\<open>updateValue\<close> (lines 1009-1025). After the assignment of line 1012 the entry is read
  again, both for the comparison of line 1013 and for the guard of line 1018.
\<close>

definition updateValue :: "bool \<Rightarrow> inst \<Rightarrow> inst" where
  "updateValue noValidate st =
     (let k = c_key (component st);
          v = get_prop st k;
          falsey = (if truthy v then False else v \<noteq> JNull \<and> v \<noteq> JUndefined);
          (new, s1) = getValue st;
          s2 = set_prop k new s1;
          changed = (if strict_eq v (get_prop s2 k) then False else True)
      in if changed then
           (if falsey then (if truthy (get_prop s2 k) then triggerChange noValidate s2 else s2)
            else triggerChange noValidate s2)
         else s2)"

text \<open>
  \<^verbatim>\<open>setValueAt\<close> (lines 1133-1138). The input keeps the string made from the value
  assigned. Writing to a row that does not exist is a TypeError (\<^verbatim>\<open>this.inputs[index]\<close>
  is undefined).
\<close>

definition setValueAt :: "nat \<Rightarrow> jsval \<Rightarrow> inst \<Rightarrow> outcome" where
  "setValueAt index v st =
     (if v = JNull \<or> v = JUndefined then
        (case defaultValue st of
           Inl e \<Rightarrow> throw e st
         | Inr d \<Rightarrow>
             (if index < length (inputs st)
              then done_ok (st\<lparr>inputs := (inputs st)
                     [index := (inputs st ! index)\<lparr>el_value := stored st (heap st) d\<rparr>]\<rparr>)
              else throw TypeError st))
      else
        (if index < length (inputs st)
         then done_ok (st\<lparr>inputs := (inputs st)
                [index := (inputs st ! index)\<lparr>el_value := stored st (heap st) v\<rparr>]\<rparr>)
         else throw TypeError st))"

text \<open>
  \<^verbatim>\<open>setValue\<close> (lines 1144-1156). The loop \<^verbatim>\<open>for (let i in this.inputs)\<close> visits the
  indices of the inputs in ascending order.
\<close>

fun setValue_loop :: "nat list \<Rightarrow> jsval \<Rightarrow> inst \<Rightarrow> outcome" where
  "setValue_loop [] v st = done_ok st"
| "setValue_loop (i # rest) v st =
     and_then (setValueAt i (if isArray v then index_at (heap st) v i else v) st)
       (setValue_loop rest v)"

definition setValue :: "jsval \<Rightarrow> bool \<Rightarrow> bool \<Rightarrow> inst \<Rightarrow> outcome" where
  "setValue v noUpdate noValidate st =
     (if c_input (component st) then
        and_then (setValue_loop [0..<length (inputs st)] v (st\<lparr>this_value := v\<rparr>))
          (\<lambda>s. if noUpdate then done_ok s else done_ok (updateValue noValidate s))
      else done_ok st)"

section \<open>Listeners and change notification\<close>

text \<open>
  \<^verbatim>\<open>on\<close> (lines 213-224). The hub is the host's event emitter: \<^verbatim>\<open>on\<close> appends a
  registration, \<^verbatim>\<open>off\<close> removes one registration of the pair (type, callback) if there
  is one and does nothing otherwise.
\<close>

definition on :: "string \<Rightarrow> nat \<Rightarrow> bool \<Rightarrow> inst \<Rightarrow> inst" where
  "on event cb internal st =
     (if events st then
        st\<lparr>eventListeners := eventListeners st @
              [\<lparr>l_type = ''formio.'' @ event, l_listener = cb, l_internal = internal\<rparr>],
           hub := hub st @ [(''formio.'' @ event, cb)]\<rparr>
      else st)"

text \<open>\<^verbatim>\<open>onChange\<close> (lines 929-940), with \<^verbatim>\<open>emit\<close> (line 233) writing to the log.\<close>

definition onChange :: "bool \<Rightarrow> inst \<Rightarrow> inst" where
  "onChange noValidate st =
     (let s1 = (if noValidate then st else st\<lparr>pristine := False\<rparr>)
      in if events s1 then
           s1\<lparr>emitted := emitted s1 @
                 [(''formio.componentChange'', this_value s1, (if noValidate then False else True))]\<rparr>
         else s1)"

text \<open>
  Time passing by \<open>d\<close> milliseconds with no other call: a pending debounced call whose
  deadline is reached runs \<^verbatim>\<open>onChange\<close> with the argument of the last \<^verbatim>\<open>triggerChange\<close>.
\<close>

definition advance :: "nat \<Rightarrow> inst \<Rightarrow> inst" where
  "advance d st =
     (let s1 = st\<lparr>clock := clock st + d\<rparr>
      in case timer s1 of
           None \<Rightarrow> s1
         | Some (t, nv) \<Rightarrow> (if t \<le> clock s1 then onChange nv (s1\<lparr>timer := None\<rparr>) else s1))"

text \<open>
  \<^verbatim>\<open>addEventListener\<close> (lines 744-751): the record keeps the event under \<^verbatim>\<open>type\<close> and does
  not keep the node. A node holds a given (event, callback) pair at most once.
\<close>

definition attach :: "'a \<Rightarrow> 'a list \<Rightarrow> 'a list" where
  "attach x xs = (if x \<in> set xs then xs else xs @ [x])"

definition addEventListener :: "nat \<Rightarrow> string \<Rightarrow> nat \<Rightarrow> inst \<Rightarrow> inst" where
  "addEventListener obj evt func st =
     st\<lparr>eventHandlers := eventHandlers st @ [\<lparr>h_type = evt, h_func = func\<rparr>],
        dom_listeners := attach (obj, evt, func) (dom_listeners st)\<rparr>"

text \<open>
  \<^verbatim>\<open>destroy\<close> (lines 756-768). The first loop calls \<^verbatim>\<open>this.events.off\<close>, a TypeError
  when there is no hub. The second loop reads \<^verbatim>\<open>handler.event\<close>, a field the records do
  not have, and calls \<^verbatim>\<open>window.removeEventListener(undefined, handler.func)\<close>: it removes
  the listener of the event named \<^verbatim>\<open>"undefined"\<close> from the window. Every call of
  \<^verbatim>\<open>off\<close> and of \<^verbatim>\<open>removeEventListener\<close> is logged. The input mask's own \<^verbatim>\<open>destroy\<close> is
  outside the file and touches nothing of the state.
\<close>

fun destroy_listeners :: "bool \<Rightarrow> listener_rec list \<Rightarrow> inst \<Rightarrow> outcome" where
  "destroy_listeners all [] st = done_ok st"
| "destroy_listeners all (l # rest) st =
     (if all \<or> l_internal l then
        (if events st
         then destroy_listeners all rest
                (st\<lparr>hub := remove1 (l_type l, l_listener l) (hub st),
                    off_log := off_log st @ [(l_type l, l_listener l)]\<rparr>)
         else throw TypeError st)
      else destroy_listeners all rest st)"

fun destroy_handlers :: "handler_rec list \<Rightarrow> inst \<Rightarrow> inst" where
  "destroy_handlers [] st = st"
| "destroy_handlers (h # rest) st =
     destroy_handlers rest
       (st\<lparr>dom_listeners := removeAll (window, ''undefined'', h_func h) (dom_listeners st),
           removed_log := removed_log st @ [(''undefined'', h_func h)]\<rparr>)"

definition destroy :: "bool \<Rightarrow> inst \<Rightarrow> outcome" where
  "destroy all st =
     and_then (destroy_listeners all (eventListeners st) st)
       (\<lambda>s. done_ok (destroy_handlers (eventHandlers s) s))"

section \<open>Rendering inputs and rows\<close>

text \<open>
  \<^verbatim>\<open>addInput\<close> (lines 969-981) as \<^verbatim>\<open>createInput\<close> calls it: the input joins
  \<^verbatim>\<open>this.inputs\<close>, gets its change and keypress listeners (two new closures), and when the
  data object answers that it has the key as an own property, every input so far is set
  from the entry without an update.
\<close>

definition addInput :: "nat \<Rightarrow> inst \<Rightarrow> outcome" where
  "addInput n st =
     (let s1 = st\<lparr>inputs := inputs st @ [\<lparr>el_node = n, el_value = []\<rparr>]\<rparr>;
          (f1, s2) = new_id s1;
          s3 = addEventListener n ''change'' f1 s2;
          (f2, s4) = new_id s3;
          s5 = addEventListener n ''keypress'' f2 s4;
          k = c_key (component s5)
      in case has_own s5 k of
           Inl e \<Rightarrow> throw e s5
         | Inr b \<Rightarrow> (if b then setValue (get_prop s5 k) True False s5 else done_ok s5))"

text \<open>
  \<^verbatim>\<open>createInput\<close> (lines 723-732): a new input node, the mask when the descriptor asks for
  one, then \<^verbatim>\<open>addInput\<close>. Prefix, suffix and group are nodes without listeners.
\<close>

definition createInput :: "inst \<Rightarrow> outcome" where
  "createInput st =
     (let (n, s1) = new_id st;
          s2 = (if c_inputMask (component s1) then s1\<lparr>inputMask := True\<rparr> else s1)
      in addInput n s2)"

text \<open>\<^verbatim>\<open>removeButton\<close> (lines 536-553) and \<^verbatim>\<open>addButton\<close> (lines 506-521): a node and a click listener.\<close>

definition removeButton :: "inst \<Rightarrow> inst" where
  "removeButton st =
     (let (b, s1) = new_id st; (f, s2) = new_id s1 in addEventListener b ''click'' f s2)"

definition addButton :: "inst \<Rightarrow> inst" where
  "addButton st =
     (let (b, s1) = new_id st; (f, s2) = new_id s1 in addEventListener b ''click'' f s2)"

text \<open>
  How many times \<^verbatim>\<open>_each(v, ...)\<close> calls back: once per element of an array, once per
  character of a string, never for the other primitive values.
\<close>

definition each_count :: "inst \<Rightarrow> jsval \<Rightarrow> nat" where
  "each_count st v =
     (case v of
        JArr a \<Rightarrow> length (heap st a)
      | JStr s \<Rightarrow> length s
      | JObj a \<Rightarrow> ref_each st v
      | JFun a \<Rightarrow> ref_each st v
      | JBuiltin n \<Rightarrow> ref_each st v
      | _ \<Rightarrow> 0)"

text \<open>\<^verbatim>\<open>buildRows\<close> (lines 473-500).\<close>

fun buildRows_loop :: "nat \<Rightarrow> inst \<Rightarrow> outcome" where
  "buildRows_loop 0 st = done_ok st"
| "buildRows_loop (Suc n) st =
     and_then (createInput st) (\<lambda>s. buildRows_loop n (removeButton s))"

definition buildRows :: "inst \<Rightarrow> outcome" where
  "buildRows st =
     (if tbody st then
        and_then
          (buildRows_loop (each_count st (get_prop st (c_key (component st))))
             (st\<lparr>inputs := []\<rparr>))
          (\<lambda>s. let s1 = addButton s
               in done_ok (if readOnly s1 \<or> c_disabled (component s1)
                           then s1\<lparr>disabled := True\<rparr> else s1))
      else done_ok st)"

section \<open>Multi-value rows\<close>

text \<open>
  \<^verbatim>\<open>addNewValue\<close> (lines 441-449). The two guards come first: an entry that reads as
  falsy is assigned a new empty array, and an entry that then does not read as an array
  is assigned a new one-element array holding what it read as. Line 448 reads the entry
  and its \<^verbatim>\<open>push\<close> before it evaluates the argument.
\<close>

definition ensureArray :: "inst \<Rightarrow> inst" where
  "ensureArray st =
     (let k = c_key (component st);
          s1 = (if truthy (get_prop st k) then st
                else (let (a, s) = alloc [] st in set_prop k (JArr a) s));
          s2 = (if isArray (get_prop s1 k) then s1
                else (let (a, s) = alloc [get_prop s1 k] s1 in set_prop k (JArr a) s))
      in s2)"

definition addNewValue :: "inst \<Rightarrow> outcome" where
  "addNewValue st =
     (let s2 = ensureArray st
      in case get_prop s2 (c_key (component s2)) of
           JArr a \<Rightarrow>
             (case defaultValue s2 of
                Inl e \<Rightarrow> throw e s2
              | Inr d \<Rightarrow> done_ok (s2\<lparr>heap := (heap s2)(a := heap s2 a @ [d])\<rparr>))
         | _ \<Rightarrow> throw TypeError s2)"

text \<open>\<^verbatim>\<open>addValue\<close> (lines 454-457).\<close>

definition addValue :: "inst \<Rightarrow> outcome" where
  "addValue st = and_then (addNewValue st) buildRows"

text \<open>
  \<^verbatim>\<open>xs.splice(index, 1)\<close>: a negative index counts from the end, an index past the end
  removes nothing.
\<close>

definition splice1 :: "int \<Rightarrow> 'a list \<Rightarrow> 'a list" where
  "splice1 index xs =
     (let n = int (length xs);
          start = nat (if index < 0 then max (n + index) 0 else min index n)
      in take start xs @ drop (Suc start) xs)"

text \<open>
  \<^verbatim>\<open>removeValue\<close> (lines 463-468). Only an array has \<^verbatim>\<open>splice\<close>: any other entry under
  the key is a TypeError.
\<close>

definition removeValue :: "int \<Rightarrow> inst \<Rightarrow> outcome" where
  "removeValue index st =
     and_then
       (case has_own st (c_key (component st)) of
          Inl e \<Rightarrow> throw e st
        | Inr b \<Rightarrow>
            (if b then
               (case get_prop st (c_key (component st)) of
                  JArr a \<Rightarrow> done_ok (st\<lparr>heap := (heap st)(a := splice1 index (heap st a))\<rparr>)
                | _ \<Rightarrow> throw TypeError st)
             else done_ok st))
       buildRows"

section \<open>Building\<close>

text \<open>
  \<^verbatim>\<open>createWrapper\<close> (lines 374-397): for a multiple component the row region exists from
  here on, an entry that reads as falsy or as empty is seeded, and the rows are built.
  \<open>has_length\<close> is the truthiness of \<^verbatim>\<open>v.length\<close>.
\<close>

definition has_length :: "inst \<Rightarrow> jsval \<Rightarrow> bool" where
  "has_length st v =
     (case v of
        JArr a \<Rightarrow> heap st a \<noteq> []
      | JStr s \<Rightarrow> s \<noteq> []
      | JObj a \<Rightarrow> ref_length st v
      | JFun a \<Rightarrow> ref_length st v
      | JBuiltin n \<Rightarrow> ref_length st v
      | _ \<Rightarrow> False)"

definition createWrapper :: "inst \<Rightarrow> bool \<times> outcome" where
  "createWrapper st =
     (if c_multiple (component st) then
        (let s1 = st\<lparr>tbody := True\<rparr>;
             v = get_prop s1 (c_key (component s1));
             seeded = (if truthy v \<and> has_length s1 v then done_ok s1 else addNewValue s1)
         in (True, and_then seeded buildRows))
      else (False, done_ok st))"

text \<open>
  \<^verbatim>\<open>build\<close> (lines 290-308). The element, label and description are nodes without
  listeners of this instance.
\<close>

definition build :: "inst \<Rightarrow> outcome" where
  "build st =
     (let (wrapped, r) = createWrapper st
      in and_then (if wrapped then r else and_then r createInput)
           (\<lambda>s. let s1 = (if readOnly s \<or> c_disabled (component s) then s\<lparr>disabled := True\<rparr> else s)
                in case defaultValue s1 of
                     Inl e \<Rightarrow> throw e s1
                   | Inr d \<Rightarrow> (if truthy d then setValue d False False s1 else done_ok s1)))"

section \<open>The external-library loader\<close>

text \<open>
  One entry of the \<^verbatim>\<open>src\<close> argument of \<^verbatim>\<open>requireLibrary\<close>: a URL string, an object with
  \<^verbatim>\<open>type\<close> and \<^verbatim>\<open>src\<close>, or null/undefined. The argument is one entry or an array of them.
\<close>

datatype lib = LibUrl string | LibObj string string | LibNull

datatype src_arg = One lib | Many "lib list"

text \<open>
  The process-wide state of the loader. The registry \<^verbatim>\<open>BaseComponent.externalLibraries\<close>
  is a plain object (line 1278): \<open>externalLibraries\<close> are its own properties, an entry
  being identified with its \<^verbatim>\<open>ready\<close> promise, and \<open>registry_proto\<close> is its prototype,
  \<open>None\<close> for \<^verbatim>\<open>Object.prototype\<close> and \<open>Some f\<close> for the entry with the promise \<open>f\<close>. The
  other fields are the value each promise was resolved with, what \<^verbatim>\<open>window\<close> reads under
  a name (line 1286 reads it directly and line 1293 through \<^verbatim>\<open>_get\<close>, which agree for a
  name that is not a path), the elements appended to the document head as (tag, URL),
  the polling timers started, and the next unused identity of a promise or function.
\<close>

record page =
  externalLibraries :: "string \<Rightarrow> nat option"
  registry_proto :: "nat option"
  resolved :: "nat \<Rightarrow> jsval option"
  window_props :: "string \<Rightarrow> jsval"
  doc_head :: "(string \<times> string) list"
  polls :: "(string \<times> string) list"
  next_id :: nat

text \<open>Resolving a promise settles it once.\<close>

definition resolve :: "nat \<Rightarrow> jsval \<Rightarrow> page \<Rightarrow> page" where
  "resolve f v pg =
     (case resolved pg f of None \<Rightarrow> pg\<lparr>resolved := (resolved pg)(f \<mapsto> v)\<rparr> | Some w \<Rightarrow> pg)"

text \<open>
  The body of \<^verbatim>\<open>src.forEach\<close> (lines 1300-1334). Reading \<^verbatim>\<open>lib.type\<close> of null or
  undefined is a TypeError; a type other than \<^verbatim>\<open>script\<close> and \<^verbatim>\<open>styles\<close> leaves the
  element type empty, and \<^verbatim>\<open>document.createElement\<close> throws on the empty tag name.
\<close>

definition element_of :: "lib \<Rightarrow> string \<times> string" where
  "element_of l =
     (case l of
        LibUrl u \<Rightarrow> (''script'', u)
      | LibObj t u \<Rightarrow> (if t = ''script'' then (''script'', u) else (''link'', u))
      | LibNull \<Rightarrow> ([], []))"

fun inject :: "lib list \<Rightarrow> page \<Rightarrow> page \<times> error option" where
  "inject [] pg = (pg, None)"
| "inject (l # rest) pg =
     (case l of
        LibNull \<Rightarrow> (pg, Some TypeError)
      | LibUrl u \<Rightarrow> inject rest (pg\<lparr>doc_head := doc_head pg @ [element_of l]\<rparr>)
      | LibObj t u \<Rightarrow>
          (if t = ''script'' then inject rest (pg\<lparr>doc_head := doc_head pg @ [element_of l]\<rparr>)
           else if t = ''styles'' then inject rest (pg\<lparr>doc_head := doc_head pg @ [element_of l]\<rparr>)
           else (pg, Some DOMException)))"

definition src_list :: "src_arg \<Rightarrow> lib list" where
  "src_list src = (case src of Many ls \<Rightarrow> ls | One l \<Rightarrow> [l])"

text \<open>
  \<^verbatim>\<open>externalLibraries[name] = {}\<close> (line 1281) with the promise made on the next line:
  for \<^verbatim>\<open>__proto__\<close> the new object becomes the prototype of the registry, for every other
  name it becomes an own property.
\<close>

definition new_entry :: "string \<Rightarrow> nat \<Rightarrow> page \<Rightarrow> page" where
  "new_entry name f pg =
     (if name = ''__proto__'' then pg\<lparr>registry_proto := Some f\<rparr>
      else pg\<lparr>externalLibraries := (externalLibraries pg)(name \<mapsto> f)\<rparr>)"

text \<open>
  \<^verbatim>\<open>BaseComponent.requireLibrary\<close> (lines 1279-1352): the state it leaves, and the
  promise returned or the error thrown. The method \<^verbatim>\<open>hasOwnProperty\<close> of line 1280 is
  looked up on the registry: an own entry of that name shadows the built-in method and,
  being an object, cannot be called, a TypeError. Otherwise the built-in method tells
  whether \<open>name\<close> is an own property. On the path that creates the entry, every later
  \<^verbatim>\<open>externalLibraries[name]\<close> reads the object just created.
\<close>

definition requireLibrary ::
  "string \<Rightarrow> string \<Rightarrow> src_arg \<Rightarrow> bool \<Rightarrow> page \<Rightarrow> page \<times> (error + nat)" where
  "requireLibrary name property src polling pg =
     (case externalLibraries pg ''hasOwnProperty'' of
        Some e \<Rightarrow> (pg, Inl TypeError)
      | None \<Rightarrow>
          (case externalLibraries pg name of
             Some f \<Rightarrow> (pg, Inr f)
           | None \<Rightarrow>
               (let f = next_id pg;
                    p1 = (new_entry name f pg)\<lparr>next_id := Suc f\<rparr>;
                    cb = name @ ''Callback'';
                    p2 = (if polling then p1
                          else if truthy (window_props p1 cb) then p1
                          else p1\<lparr>window_props := (window_props p1)(cb := JFun (next_id p1)),
                                  next_id := Suc (next_id p1)\<rparr>);
                    plugin = window_props p2 property
                in if truthy plugin then (resolve f plugin p2, Inr f)
                   else (case inject (src_list src) p2 of
                           (p3, Some e) \<Rightarrow> (p3, Inl e)
                         | (p3, None) \<Rightarrow>
                             ((if polling then p3\<lparr>polls := polls p3 @ [(name, property)]\<rparr>
                               else p3),
                              Inr f)))))"

text \<open>Any further calls, whatever their arguments and whether or not they throw.\<close>

fun requireAll :: "(string \<times> string \<times> src_arg \<times> bool) list \<Rightarrow> page \<Rightarrow> page" where
  "requireAll [] pg = pg"
| "requireAll ((n, p, s, b) # rest) pg = requireAll rest (fst (requireLibrary n p s b pg))"

section \<open>Notions used to state the properties\<close>

text \<open>What \<^verbatim>\<open>setValueAt\<close> assigns for a value \<open>x\<close> when the default value is \<open>d\<close> (lines 1134-1137).\<close>

definition or_default :: "jsval \<Rightarrow> jsval \<Rightarrow> jsval" where
  "or_default d x = (if x = JNull \<or> x = JUndefined then d else x)"

text \<open>The second argument of \<^verbatim>\<open>setValueAt\<close> in row \<open>i\<close> of \<^verbatim>\<open>setValue\<close> (line 1151).\<close>

definition row_value :: "(nat \<Rightarrow> jsval list) \<Rightarrow> jsval \<Rightarrow> nat \<Rightarrow> jsval" where
  "row_value h v i = (if isArray v then index_at h v i else v)"

text \<open>
  The rows once the loop of \<^verbatim>\<open>setValue\<close> has visited the indices below \<open>n\<close>, leaving the
  string \<open>w i\<close> in row \<open>i\<close>.
\<close>

definition rows_upto :: "nat \<Rightarrow> (nat \<Rightarrow> string) \<Rightarrow> input_el list \<Rightarrow> input_el list" where
  "rows_upto n w xs =
     map (\<lambda>i. if i < n then (xs ! i)\<lparr>el_value := w i\<rparr> else xs ! i) [0..<length xs]"

text \<open>
  The calls \<^verbatim>\<open>destroy(all)\<close> makes: of \<^verbatim>\<open>events.off\<close> for the listener records, and of
  \<^verbatim>\<open>window.removeEventListener\<close> for the handler records, in order.
\<close>

definition off_calls :: "bool \<Rightarrow> listener_rec list \<Rightarrow> (string \<times> nat) list" where
  "off_calls all ls = map (\<lambda>l. (l_type l, l_listener l)) (filter (\<lambda>l. all \<or> l_internal l) ls)"

definition remove_calls :: "handler_rec list \<Rightarrow> (string \<times> nat) list" where
  "remove_calls hs = map (\<lambda>h. (''undefined'', h_func h)) hs"

text \<open>The user typing the strings \<open>vs\<close> into the first rows.\<close>

definition type_values :: "string list \<Rightarrow> inst \<Rightarrow> inst" where
  "type_values vs st =
     st\<lparr>inputs := map (\<lambda>i. if i < length vs then (inputs st ! i)\<lparr>el_value := vs ! i\<rparr>
                              else inputs st ! i) [0..<length (inputs st)]\<rparr>"

text \<open>
  What the entry under the component's key reads as once \<^verbatim>\<open>updateValue\<close> has assigned to
  it (line 1012), and whether \<^verbatim>\<open>updateValue\<close>, called in this state, reaches
  \<^verbatim>\<open>triggerChange\<close> (lines 1013-1024).
\<close>

definition written :: "inst \<Rightarrow> jsval" where
  "written st =
     get_prop (set_prop (c_key (component st)) (fst (getValue st)) (snd (getValue st)))
       (c_key (component st))"

definition notifies :: "inst \<Rightarrow> bool" where
  "notifies st =
     (let old = get_prop st (c_key (component st)); new = written st
      in (if strict_eq old new then False
          else truthy old \<or> old = JNull \<or> old = JUndefined \<or> truthy new))"

text \<open>
  A burst of \<^verbatim>\<open>updateValue\<close> calls: before each call \<open>d\<close> milliseconds pass and the user
  types \<open>vs\<close>; the call's argument is \<open>nv\<close>.
\<close>

fun burst :: "(nat \<times> string list \<times> bool) list \<Rightarrow> inst \<Rightarrow> inst" where
  "burst [] st = st"
| "burst ((d, vs, nv) # rest) st = burst rest (updateValue nv (type_values vs (advance d st)))"

fun all_notify :: "(nat \<times> string list \<times> bool) list \<Rightarrow> inst \<Rightarrow> bool" where
  "all_notify [] st = True"
| "all_notify ((d, vs, nv) # rest) st =
     (notifies (type_values vs (advance d st)) \<and>
      all_notify rest (updateValue nv (type_values vs (advance d st))))"

text \<open>
  What the methods that render rows leave alone: the descriptor, the data object, the
  arrays and the surroundings.
\<close>

record world =
  w_component :: descriptor
  w_data :: "string \<Rightarrow> jsval option"
  w_proto :: jsval
  w_heap :: "nat \<Rightarrow> jsval list"
  w_inherited :: "jsval \<Rightarrow> string \<Rightarrow> jsval"
  w_call :: "jsval \<Rightarrow> string \<Rightarrow> error + bool"
  w_stored :: "(nat \<Rightarrow> jsval list) \<Rightarrow> jsval \<Rightarrow> string"

definition kept :: "inst \<Rightarrow> world" where
  "kept st =
     \<lparr>w_component = component st, w_data = data st, w_proto = data_proto st, w_heap = heap st,
      w_inherited = inherited st, w_call = host_call st, w_stored = stored st\<rparr>"

section \<open>Example components\<close>

definition text_field :: descriptor where
  "text_field =
     \<lparr>c_input = True, c_multiple = False, c_key = ''name'', c_defaultValue = JUndefined,
      c_customDefaultValue = NoExpr, c_inputMask = False, c_disabled = False\<rparr>"

definition tags_field :: descriptor where
  "tags_field =
     \<lparr>c_input = True, c_multiple = True, c_key = ''tags'', c_defaultValue = JUndefined,
      c_customDefaultValue = NoExpr, c_inputMask = False, c_disabled = False\<rparr>"

text \<open>A heap with the arrays \<^verbatim>\<open>["a", "b"]\<close> at address 1 and \<^verbatim>\<open>["x"]\<close> at address 2.\<close>

definition two_arrays :: "nat \<Rightarrow> jsval list" where
  "two_arrays = (\<lambda>a. [])(1 := [JStr ''a'', JStr ''b''], 2 := [JStr ''x''])"

text \<open>A text field over empty data, and a tags field over \<^verbatim>\<open>{tags: ["a", "b"]}\<close>, before \<^verbatim>\<open>build\<close>.\<close>

definition new_text :: inst where
  "new_text = (init text_field False True Map.empty)\<lparr>heap := two_arrays, fresh := 3\<rparr>"

definition new_tags :: inst where
  "new_tags =
     (init tags_field False True [''tags'' \<mapsto> JArr 1])\<lparr>heap := two_arrays, fresh := 3\<rparr>"

text \<open>A page on which nothing was required yet.\<close>

definition empty_page :: page where
  "empty_page =
     \<lparr>externalLibraries = Map.empty, registry_proto = None, resolved = Map.empty,
      window_props = (\<lambda>p. JUndefined), doc_head = [], polls = [], next_id = 0\<rparr>"

text \<open>A tags field whose entry is the number 0, and one whose entry is the string \<^verbatim>\<open>"a"\<close>.\<close>

definition zero_tags :: inst where
  "zero_tags = init tags_field False True [''tags'' \<mapsto> JNum 0]"

definition scalar_tags :: inst where
  "scalar_tags = init tags_field False True [''tags'' \<mapsto> JStr ''a'']"

text \<open>
  The built text field after two callbacks were registered on the hub, one as an internal
  listener and one as an external one.
\<close>

definition listening_text :: inst where
  "listening_text = on ''change'' 8 False (on ''submit'' 7 True (fst (build new_text)))"

text \<open>
  The text field after the same callback was registered twice on the hub for one event,
  once as an internal listener and once as an external one.
\<close>

definition twice_registered :: inst where
  "twice_registered = on ''x'' 7 False (on ''x'' 7 True new_text)"

text \<open>A text field over \<^verbatim>\<open>{name: 0}\<close>, before \<^verbatim>\<open>build\<close>.\<close>

definition zero_text :: inst where
  "zero_text = init text_field False True [''name'' \<mapsto> JNum 0]"

text \<open>Three keystrokes 0, 50 and 199 ms after the one before.\<close>

definition typing_abc :: "(nat \<times> string list \<times> bool) list" where
  "typing_abc = [(0, [''a''], False), (50, [''ab''], False), (199, [''abc''], True)]"

text \<open>A text field whose key is \<^verbatim>\<open>__proto__\<close>, over empty data, before \<^verbatim>\<open>build\<close>.\<close>

definition proto_text :: inst where
  "proto_text = init (text_field\<lparr>c_key := ''__proto__''\<rparr>) False True Map.empty"

text \<open>
  A tags field whose key is \<^verbatim>\<open>hasOwnProperty\<close>, over \<^verbatim>\<open>{hasOwnProperty: ["a", "b"]}\<close>,
  before \<^verbatim>\<open>build\<close>.
\<close>

definition shadowing_tags :: inst where
  "shadowing_tags =
     (init (tags_field\<lparr>c_key := ''hasOwnProperty''\<rparr>) False True
        [''hasOwnProperty'' \<mapsto> JArr 1])\<lparr>heap := two_arrays, fresh := 3\<rparr>"

text \<open>The first request for the signature pad on an empty page.\<close>

definition first_request :: "page \<times> (error + nat)" where
  "first_request =
     requireLibrary ''signaturepad'' ''SignaturePad'' (One (LibUrl ''signature_pad.js'')) False
       empty_page"

text \<open>A request for a library named \<^verbatim>\<open>__proto__\<close>.\<close>

definition proto_request :: "page \<Rightarrow> page \<times> (error + nat)" where
  "proto_request = requireLibrary ''__proto__'' ''Lib'' (One (LibUrl ''lib.js'')) False"

section \<open>Basic facts about outcomes, the data object and defaults\<close>

lemma and_then_ok [simp]: "and_then (s, None) f = f s"
  by (simp add: and_then_def)

lemma and_then_err [simp]: "and_then (s, Some e) f = (s, Some e)"
  by (simp add: and_then_def)

lemma and_then_done [simp]: "and_then (done_ok s) f = f s"
  by (simp add: and_then_def done_ok_def)

text \<open>
  For running the model on a concrete state: the first argument of \<open>and_then\<close> and the
  bound value of a \<open>let\<close> are evaluated before the continuation is looked at.
\<close>

lemma and_then_weak_cong: "r = r' \<Longrightarrow> and_then r f = and_then r' f"
  by simp

lemmas run_defs = done_ok_def throw_def new_id_def alloc_def addEventListener_def attach_def Let_def

text \<open>Under any name but \<^verbatim>\<open>__proto__\<close> an assignment creates or updates the own property.\<close>

lemma set_prop_plain:
  "k \<noteq> ''__proto__'' \<Longrightarrow> set_prop k v st = st\<lparr>data := (data st)(k \<mapsto> v)\<rparr>"
  by (simp add: set_prop_def split: option.splits)

lemma get_prop_own: "data st k = Some v \<Longrightarrow> get_prop st k = v"
  by (simp add: get_prop_def)

text \<open>An array assigned under any name is what the name reads as afterwards.\<close>

lemma get_prop_set_prop_array:
  "get_prop (set_prop k (JArr a) st) k = JArr a"
  by (simp add: get_prop_def set_prop_def split: option.splits)

text \<open>A plain object without an own property \<^verbatim>\<open>hasOwnProperty\<close> answers for its own properties.\<close>

lemma plain_has_own:
  assumes "data st ''hasOwnProperty'' = None" and "data_proto st = object_prototype"
    and "inherited st = plain_inherited"
  shows "has_own st k = Inr (data st k \<noteq> None)"
  using assms
  by (simp add: has_own_def get_prop_def via_proto_def plain_inherited_def object_members_def
      object_prototype_def hasOwnProperty_builtin_def)

lemma builtin_has_own:
  "get_prop st ''hasOwnProperty'' = hasOwnProperty_builtin \<Longrightarrow>
   has_own st k = Inr (data st k \<noteq> None)"
  by (simp add: has_own_def)

text \<open>The default value depends on the descriptor, the data object and the heap only.\<close>

lemma defaultValue_cong:
  "component s = component st \<Longrightarrow> data s = data st \<Longrightarrow> data_proto s = data_proto st \<Longrightarrow>
   heap s = heap st \<Longrightarrow> defaultValue s = defaultValue st"
  unfolding defaultValue_def by (simp split: expr.splits option.splits)

section \<open>Reading before any input is rendered\<close>

text \<open>
  Claim C10. An input-bound, single-valued component with no rendered input: \<^verbatim>\<open>getValue\<close>
  returns a new empty array (not undefined, not a scalar) and caches that same array in
  \<^verbatim>\<open>this.value\<close>.
\<close>

theorem getValue_without_inputs:
  assumes "c_input (component st)" and "\<not> c_multiple (component st)" and "inputs st = []"
  shows "fst (getValue st) = JArr (fresh st) \<and>
         heap (snd (getValue st)) (fresh st) = [] \<and>
         this_value (snd (getValue st)) = JArr (fresh st)"
  using assms by (simp add: getValue_def alloc_def)

theorem getValue_without_inputs_witness:
  "fst (getValue new_text) = JArr 3 \<and>
   heap (snd (getValue new_text)) 3 = [] \<and>
   this_value (snd (getValue new_text)) = JArr 3"
  using getValue_without_inputs [of new_text]
  by (simp add: new_text_def init_def text_field_def)

section \<open>Writing the data object and scheduling the notification\<close>

lemma getValue_frame:
  "component (snd (getValue st)) = component st \<and> inputs (snd (getValue st)) = inputs st \<and>
   data (snd (getValue st)) = data st \<and> data_proto (snd (getValue st)) = data_proto st \<and>
   inherited (snd (getValue st)) = inherited st \<and>
   timer (snd (getValue st)) = timer st \<and>
   clock (snd (getValue st)) = clock st \<and> emitted (snd (getValue st)) = emitted st \<and>
   events (snd (getValue st)) = events st"
  by (simp add: getValue_def alloc_def split_def split: sum.splits)

lemma set_prop_frame:
  "component (set_prop k v st) = component st \<and> inputs (set_prop k v st) = inputs st \<and>
   timer (set_prop k v st) = timer st \<and> clock (set_prop k v st) = clock st \<and>
   emitted (set_prop k v st) = emitted st \<and> events (set_prop k v st) = events st \<and>
   this_value (set_prop k v st) = this_value st \<and> heap (set_prop k v st) = heap st \<and>
   inherited (set_prop k v st) = inherited st"
  by (simp add: set_prop_def split: option.splits)

lemma updateValue_frame:
  "component (updateValue nv st) = component st \<and> inputs (updateValue nv st) = inputs st \<and>
   clock (updateValue nv st) = clock st \<and> emitted (updateValue nv st) = emitted st \<and>
   events (updateValue nv st) = events st \<and>
   this_value (updateValue nv st) = this_value (snd (getValue st))"
  by (simp add: updateValue_def Let_def split_def triggerChange_def getValue_frame set_prop_frame)

text \<open>What \<^verbatim>\<open>updateValue\<close> leaves: the assignment of line 1012, and the timer.\<close>

lemma updateValue_data:
  "data (updateValue nv st) =
     data (set_prop (c_key (component st)) (fst (getValue st)) (snd (getValue st))) \<and>
   data_proto (updateValue nv st) =
     data_proto (set_prop (c_key (component st)) (fst (getValue st)) (snd (getValue st))) \<and>
   inherited (updateValue nv st) = inherited st"
  by (simp add: updateValue_def Let_def split_def triggerChange_def getValue_frame set_prop_frame)

lemma updateValue_scheduled:
  "timer (updateValue nv st) = (if notifies st then Some (clock st + 200, nv) else timer st)"
  by (simp add: updateValue_def notifies_def written_def Let_def split_def triggerChange_def
      getValue_frame set_prop_frame)

lemma via_proto_cong:
  "data_proto s = data_proto st \<Longrightarrow> inherited s = inherited st \<Longrightarrow> heap s = heap st \<Longrightarrow>
   via_proto s k = via_proto st k"
  by (cases "data_proto st") (simp_all add: via_proto_def split: option.splits)

lemma get_prop_cong:
  "data s = data st \<Longrightarrow> data_proto s = data_proto st \<Longrightarrow> inherited s = inherited st \<Longrightarrow>
   heap s = heap st \<Longrightarrow> get_prop s k = get_prop st k"
  using via_proto_cong [of s st k] by (simp add: get_prop_def split: option.splits)

lemma written_plain:
  "c_key (component st) \<noteq> ''__proto__'' \<Longrightarrow> written st = fst (getValue st)"
  by (simp add: written_def set_prop_plain get_prop_def getValue_frame)

text \<open>
  Claim C3, amended: for every component whose key is not \<^verbatim>\<open>__proto__\<close>, \<^verbatim>\<open>updateValue\<close>
  stores what \<^verbatim>\<open>getValue\<close> returns as the own property under the component's key, which
  then reads as that value. With the previous value being what the data object read under
  the key before (its own property or an inherited one), the debounce timer is left as
  it was when the new value is \<^verbatim>\<open>===\<close> the previous one, and also when the previous
  value was falsy but neither null nor undefined and the new one is falsy; in every other
  case the timer is set to fire 200 ms from now with the call's argument. Nothing is
  emitted by the call itself.
\<close>

theorem updateValue_notifies:
  assumes "c_key (component st) \<noteq> ''__proto__''"
  shows "data (updateValue nv st) =
           (data st)(c_key (component st) \<mapsto> fst (getValue st)) \<and>
         get_prop (updateValue nv st) (c_key (component st)) = fst (getValue st) \<and>
         timer (updateValue nv st) =
           (if strict_eq (get_prop st (c_key (component st))) (fst (getValue st)) then timer st
            else if \<not> truthy (get_prop st (c_key (component st))) \<and>
                    get_prop st (c_key (component st)) \<noteq> JNull \<and>
                    get_prop st (c_key (component st)) \<noteq> JUndefined \<and>
                    \<not> truthy (fst (getValue st))
                 then timer st
            else Some (clock st + 200, nv)) \<and>
         emitted (updateValue nv st) = emitted st"
proof -
  have d: "data (updateValue nv st) = (data st)(c_key (component st) \<mapsto> fst (getValue st))"
    using assms by (simp add: updateValue_data set_prop_plain getValue_frame)
  then have "get_prop (updateValue nv st) (c_key (component st)) = fst (getValue st)"
    by (simp add: get_prop_def)
  moreover have "timer (updateValue nv st) =
      (if strict_eq (get_prop st (c_key (component st))) (fst (getValue st)) then timer st
       else if \<not> truthy (get_prop st (c_key (component st))) \<and>
               get_prop st (c_key (component st)) \<noteq> JNull \<and>
               get_prop st (c_key (component st)) \<noteq> JUndefined \<and>
               \<not> truthy (fst (getValue st))
            then timer st
       else Some (clock st + 200, nv))"
    using assms by (auto simp add: updateValue_scheduled notifies_def written_plain Let_def)
  ultimately show ?thesis
    using d by (simp add: updateValue_frame)
qed

section \<open>Setting the value\<close>

lemma setValueAt_ok:
  assumes "x = JNull \<or> x = JUndefined \<Longrightarrow> defaultValue st = Inr d"
    and "i < length (inputs st)"
  shows "setValueAt i x st =
           (st\<lparr>inputs := (inputs st)
                 [i := (inputs st ! i)\<lparr>el_value := stored st (heap st) (or_default d x)\<rparr>]\<rparr>, None)"
  using assms by (auto simp add: setValueAt_def or_default_def done_ok_def)

lemma rows_upto_0: "rows_upto 0 w xs = xs"
  by (simp add: rows_upto_def map_nth)

lemma rows_upto_Suc:
  "n < length xs \<Longrightarrow>
   (rows_upto n w xs)[n := (rows_upto n w xs ! n)\<lparr>el_value := w n\<rparr>] = rows_upto (Suc n) w xs"
  by (rule nth_equalityI) (auto simp add: rows_upto_def nth_list_update less_Suc_eq)

lemma setValue_loop_append:
  "setValue_loop (xs @ ys) v st = and_then (setValue_loop xs v st) (setValue_loop ys v)"
proof (induction xs arbitrary: st)
  case Nil
  show ?case by simp
next
  case (Cons i xs)
  show ?case
    by (cases "setValueAt i (if isArray v then index_at (heap st) v i else v) st")
       (simp add: Cons and_then_def split: option.splits)
qed

text \<open>
  The loop of \<^verbatim>\<open>setValue\<close> over the first \<open>n\<close> rows, when the default value is \<open>d\<close>
  wherever a row needs it.
\<close>

lemma setValue_loop_upto:
  assumes dflt: "\<And>i. row_value (heap st) v i = JNull \<or> row_value (heap st) v i = JUndefined
                   \<Longrightarrow> defaultValue st = Inr d"
  shows "n \<le> length (inputs st) \<Longrightarrow>
         setValue_loop [0..<n] v st =
           (st\<lparr>inputs := rows_upto n
                  (\<lambda>i. stored st (heap st) (or_default d (row_value (heap st) v i))) (inputs st)\<rparr>,
            None)"
proof (induction n)
  case 0
  show ?case by (simp add: rows_upto_0 done_ok_def)
next
  case (Suc n)
  let ?w = "\<lambda>i. stored st (heap st) (or_default d (row_value (heap st) v i))"
  let ?s = "st\<lparr>inputs := rows_upto n ?w (inputs st)\<rparr>"
  have d: "row_value (heap st) v n = JNull \<or> row_value (heap st) v n = JUndefined
             \<Longrightarrow> defaultValue ?s = Inr d"
    using dflt [of n] defaultValue_cong [of ?s st] by simp
  have len: "n < length (inputs ?s)"
    using Suc.prems by (simp add: rows_upto_def)
  have "setValue_loop [0..<Suc n] v st = and_then (setValue_loop [0..<n] v st) (setValue_loop [n] v)"
    by (simp add: setValue_loop_append)
  also have "\<dots> = setValue_loop [n] v ?s"
    using Suc by simp
  also have "\<dots> = and_then (setValueAt n (row_value (heap st) v n) ?s) (setValue_loop [] v)"
    by (simp add: row_value_def)
  also have "\<dots> = (?s\<lparr>inputs := (inputs ?s)
        [n := (inputs ?s ! n)\<lparr>el_value := stored ?s (heap ?s) (or_default d (row_value (heap st) v n))\<rparr>]\<rparr>,
      None)"
    by (simp only: setValueAt_ok [of "row_value (heap st) v n" ?s d n, OF d len]
        and_then_ok setValue_loop.simps done_ok_def)
  also have "\<dots> = (st\<lparr>inputs := rows_upto (Suc n) ?w (inputs st)\<rparr>, None)"
    using Suc.prems rows_upto_Suc [of n "inputs st" ?w] by simp
  finally show ?case .
qed

lemma setValue_result:
  assumes "c_input (component st)"
    and "\<And>i. row_value (heap st) v i = JNull \<or> row_value (heap st) v i = JUndefined
           \<Longrightarrow> defaultValue st = Inr d"
  shows "snd (setValue v noUpdate noValidate st) = None \<and>
         component (fst (setValue v noUpdate noValidate st)) = component st \<and>
         inputs (fst (setValue v noUpdate noValidate st)) =
           rows_upto (length (inputs st))
             (\<lambda>i. stored st (heap st) (or_default d (row_value (heap st) v i))) (inputs st)"
proof -
  let ?s = "st\<lparr>this_value := v\<rparr>"
  have "\<And>i. row_value (heap ?s) v i = JNull \<or> row_value (heap ?s) v i = JUndefined
           \<Longrightarrow> defaultValue ?s = Inr d"
    using assms(2) defaultValue_cong [of ?s st] by simp
  from setValue_loop_upto [of ?s v d "length (inputs st)", OF this]
  have "setValue_loop [0..<length (inputs st)] v ?s =
          (?s\<lparr>inputs := rows_upto (length (inputs st))
                  (\<lambda>i. stored st (heap st) (or_default d (row_value (heap st) v i))) (inputs st)\<rparr>,
           None)"
    by simp
  then show ?thesis
    using assms(1) by (simp add: setValue_def done_ok_def updateValue_frame)
qed

lemma getValue_single:
  assumes "c_input (component st)" and "\<not> c_multiple (component st)" and "inputs st \<noteq> []"
  shows "getValue st =
           (JStr (el_value (inputs st ! 0)), st\<lparr>this_value := JStr (el_value (inputs st ! 0))\<rparr>)"
  using assms by (cases "inputs st") (simp_all add: getValue_def)

text \<open>
  Claim C1, amended: on an input-bound, single-valued component with at least one
  rendered input, for every value \<open>v\<close> that is a string which an input holds unchanged
  once it was assigned, \<^verbatim>\<open>setValue(v)\<close> ends normally and \<^verbatim>\<open>getValue()\<close> then returns \<open>v\<close>
  and caches it.
\<close>

theorem setValue_getValue_scalar:
  assumes "c_input (component st)" and "\<not> c_multiple (component st)" and "inputs st \<noteq> []"
    and "JStr (stored st (heap st) v) = v"
  shows "snd (setValue v noUpdate noValidate st) = None \<and>
         fst (getValue (fst (setValue v noUpdate noValidate st))) = v \<and>
         this_value (snd (getValue (fst (setValue v noUpdate noValidate st)))) = v"
proof -
  let ?s = "fst (setValue v noUpdate noValidate st)"
  have v: "v \<noteq> JNull \<and> v \<noteq> JUndefined \<and> \<not> isArray v"
    using assms(4) by (cases v) auto
  have r: "snd (setValue v noUpdate noValidate st) = None \<and> component ?s = component st \<and>
           inputs ?s = rows_upto (length (inputs st))
             (\<lambda>i. stored st (heap st) (or_default JUndefined (row_value (heap st) v i))) (inputs st)"
    using v by (intro setValue_result [OF assms(1)]) (simp add: row_value_def)
  have len: "0 < length (inputs st)"
    using assms(3) by simp
  have "JStr (el_value (inputs ?s ! 0)) = v"
    using r len v assms(4) by (simp add: rows_upto_def row_value_def or_default_def)
  moreover have "inputs ?s \<noteq> []"
    using r len by (auto simp add: rows_upto_def)
  ultimately show ?thesis
    using r assms(1,2) getValue_single [of ?s] by simp
qed

lemma new_text_fields:
  "component new_text = text_field \<and> heap new_text = two_arrays \<and> data new_text = Map.empty \<and>
   events new_text \<and> timer new_text = None \<and> emitted new_text = [] \<and> clock new_text = 0 \<and>
   stored new_text = js_string \<and> data_proto new_text = object_prototype \<and>
   inherited new_text = plain_inherited \<and> eventListeners new_text = [] \<and> hub new_text = [] \<and>
   off_log new_text = [] \<and> removed_log new_text = []"
  by (simp add: new_text_def init_def)

lemma build_new_text:
  "build new_text =
     (new_text\<lparr>inputs := [\<lparr>el_node = 3, el_value = []\<rparr>], fresh := 6,
        eventHandlers := [\<lparr>h_type = ''change'', h_func = 4\<rparr>, \<lparr>h_type = ''keypress'', h_func = 5\<rparr>],
        dom_listeners := [(3, ''change'', 4), (3, ''keypress'', 5)]\<rparr>, None)"
  by (simp add: build_def createWrapper_def createInput_def addInput_def defaultValue_def
      plain_has_own new_text_def init_def text_field_def run_defs
      cong: and_then_weak_cong let_weak_cong)

theorem setValue_getValue_scalar_witness:
  "snd (setValue (JStr ''30'') False False (fst (build new_text))) = None \<and>
   fst (getValue (fst (setValue (JStr ''30'') False False (fst (build new_text))))) = JStr ''30'' \<and>
   this_value (snd (getValue (fst (setValue (JStr ''30'') False False (fst (build new_text))))))
     = JStr ''30''"
  using setValue_getValue_scalar [of "fst (build new_text)" "JStr ''30''" False False]
  by (simp add: build_new_text new_text_fields text_field_def js_string_def)

text \<open>
  Claim C1 as stated fails for a number: the input of the built text field holds the
  string \<^verbatim>\<open>"30"\<close> after \<^verbatim>\<open>setValue(30)\<close>, and that string, not the number, is what
  \<^verbatim>\<open>getValue()\<close> returns and caches.
\<close>

theorem setValue_getValue_number_counterexample:
  "c_input (component (fst (build new_text))) \<and>
   \<not> c_multiple (component (fst (build new_text))) \<and>
   inputs (fst (build new_text)) \<noteq> [] \<and>
   JNum 30 \<noteq> JNull \<and> JNum 30 \<noteq> JUndefined \<and>
   snd (setValue (JNum 30) False False (fst (build new_text))) = None \<and>
   fst (getValue (fst (setValue (JNum 30) False False (fst (build new_text))))) = JStr ''30'' \<and>
   fst (getValue (fst (setValue (JNum 30) False False (fst (build new_text))))) \<noteq> JNum 30 \<and>
   this_value (snd (getValue (fst (setValue (JNum 30) False False (fst (build new_text))))))
     \<noteq> JNum 30"
proof -
  let ?st = "fst (build new_text)"
  have st: "c_input (component ?st) \<and> \<not> c_multiple (component ?st) \<and> heap ?st = two_arrays \<and>
            stored ?st = js_string \<and> inputs ?st = [\<lparr>el_node = 3, el_value = []\<rparr>]"
    by (simp add: build_new_text new_text_fields text_field_def)
  let ?s = "fst (setValue (JNum 30) False False ?st)"
  have r: "snd (setValue (JNum 30) False False ?st) = None \<and> component ?s = component ?st \<and>
           inputs ?s = rows_upto (length (inputs ?st))
             (\<lambda>i. stored ?st (heap ?st) (or_default JUndefined (row_value (heap ?st) (JNum 30) i)))
             (inputs ?st)"
    using st by (intro setValue_result) (simp_all add: row_value_def)
  have "decimal 30 = ''30''"
    by (simp add: decimal.simps)
  then have "inputs ?s = [\<lparr>el_node = 3, el_value = ''30''\<rparr>]"
    using r st by (simp add: rows_upto_def row_value_def or_default_def js_string_def)
  then have "getValue ?s = (JStr ''30'', ?s\<lparr>this_value := JStr ''30''\<rparr>)"
    using r st getValue_single [of ?s] by simp
  then show ?thesis
    using r st by simp
qed

lemma new_tags_fields:
  "component new_tags = tags_field \<and> heap new_tags = two_arrays \<and>
   data new_tags = [''tags'' \<mapsto> JArr 1] \<and>
   events new_tags \<and> timer new_tags = None \<and> emitted new_tags = [] \<and> clock new_tags = 0 \<and>
   stored new_tags = js_string \<and> data_proto new_tags = object_prototype \<and>
   inherited new_tags = plain_inherited"
  by (simp add: new_tags_def init_def)

lemma build_new_tags:
  "build new_tags =
     (new_tags\<lparr>fresh := 15,
        inputs := [\<lparr>el_node = 3, el_value = ''a''\<rparr>, \<lparr>el_node = 8, el_value = ''b''\<rparr>],
        this_value := JArr 1, tbody := True,
        eventHandlers :=
          [\<lparr>h_type = ''change'', h_func = 4\<rparr>, \<lparr>h_type = ''keypress'', h_func = 5\<rparr>,
           \<lparr>h_type = ''click'', h_func = 7\<rparr>, \<lparr>h_type = ''change'', h_func = 9\<rparr>,
           \<lparr>h_type = ''keypress'', h_func = 10\<rparr>, \<lparr>h_type = ''click'', h_func = 12\<rparr>,
           \<lparr>h_type = ''click'', h_func = 14\<rparr>],
        dom_listeners :=
          [(3, ''change'', 4), (3, ''keypress'', 5), (6, ''click'', 7), (8, ''change'', 9),
           (8, ''keypress'', 10), (11, ''click'', 12), (13, ''click'', 14)]\<rparr>, None)"
  by (simp add: build_def createWrapper_def buildRows_def createInput_def addInput_def
      removeButton_def addButton_def each_count_def has_length_def get_prop_def defaultValue_def
      setValue_def setValueAt_def index_at_def plain_has_own js_string_def
      new_tags_def init_def tags_field_def two_arrays_def run_defs
      cong: and_then_weak_cong let_weak_cong)

text \<open>
  Claim C2, amended: on an input-bound component whose default value is \<open>d\<close>,
  \<^verbatim>\<open>setValue\<close> ends normally and keeps the rows; called with an array it assigns element
  \<open>i\<close> to row \<open>i\<close> and the default value to every row past the end of the array; called
  with any other value it assigns that value to every row. In both cases a null or
  undefined value to assign is replaced by the default value, and the row holds the
  string its input makes of what was assigned.
\<close>

theorem setValue_distributes:
  assumes "c_input (component st)" and "defaultValue st = Inr d" and "i < length (inputs st)"
  shows "snd (setValue v noUpdate noValidate st) = None \<and>
         length (inputs (fst (setValue v noUpdate noValidate st))) = length (inputs st) \<and>
         el_value (inputs (fst (setValue v noUpdate noValidate st)) ! i) =
           stored st (heap st)
             (case v of
                JArr a \<Rightarrow> (if i < length (heap st a) then or_default d (heap st a ! i) else d)
              | _ \<Rightarrow> or_default d v)"
proof -
  let ?s = "fst (setValue v noUpdate noValidate st)"
  have r: "snd (setValue v noUpdate noValidate st) = None \<and> component ?s = component st \<and>
           inputs ?s = rows_upto (length (inputs st))
             (\<lambda>i. stored st (heap st) (or_default d (row_value (heap st) v i))) (inputs st)"
    using assms(2) by (intro setValue_result [OF assms(1)]) simp
  have "el_value (inputs ?s ! i) = stored st (heap st) (or_default d (row_value (heap st) v i))"
    using r assms(3) by (simp add: rows_upto_def)
  moreover have "or_default d (row_value (heap st) v i) =
      (case v of
         JArr a \<Rightarrow> (if i < length (heap st a) then or_default d (heap st a ! i) else d)
       | _ \<Rightarrow> or_default d v)"
    by (cases v) (simp_all add: row_value_def index_at_def or_default_def)
  ultimately show ?thesis
    using r by (simp add: rows_upto_def)
qed

lemma built_tags:
  "c_input (component (fst (build new_tags))) \<and> heap (fst (build new_tags)) = two_arrays \<and>
   stored (fst (build new_tags)) = js_string \<and>
   inputs (fst (build new_tags)) =
     [\<lparr>el_node = 3, el_value = ''a''\<rparr>, \<lparr>el_node = 8, el_value = ''b''\<rparr>] \<and>
   defaultValue (fst (build new_tags)) = Inr (JStr [])"
  by (simp add: build_new_tags new_tags_fields tags_field_def defaultValue_def)

theorem setValue_distributes_witness:
  "snd (setValue (JArr 2) True False (fst (build new_tags))) = None \<and>
   length (inputs (fst (setValue (JArr 2) True False (fst (build new_tags))))) = 2 \<and>
   el_value (inputs (fst (setValue (JArr 2) True False (fst (build new_tags)))) ! 0) = ''x''"
  using setValue_distributes [of "fst (build new_tags)" "JStr []" 0 "JArr 2" True False]
  by (simp add: built_tags two_arrays_def or_default_def js_string_def)

text \<open>
  Claim C2 as stated fails in a row past the end of the array: with two rows,
  \<^verbatim>\<open>setValue(["x"])\<close> assigns the default value, the empty string, to the second row, and
  not the array, which the row would hold as \<^verbatim>\<open>"x"\<close>.
\<close>

theorem setValue_overflow_counterexample:
  "c_input (component (fst (build new_tags))) \<and>
   length (inputs (fst (build new_tags))) = 2 \<and>
   heap (fst (build new_tags)) 2 = [JStr ''x''] \<and>
   snd (setValue (JArr 2) True False (fst (build new_tags))) = None \<and>
   map el_value (inputs (fst (setValue (JArr 2) True False (fst (build new_tags))))) =
     [''x'', []] \<and>
   stored (fst (build new_tags)) (heap (fst (build new_tags))) (JArr 2) = ''x'' \<and>
   el_value (inputs (fst (setValue (JArr 2) True False (fst (build new_tags)))) ! 1) \<noteq>
     stored (fst (build new_tags)) (heap (fst (build new_tags))) (JArr 2)"
proof -
  let ?st = "fst (build new_tags)"
  let ?s = "fst (setValue (JArr 2) True False ?st)"
  have r: "snd (setValue (JArr 2) True False ?st) = None \<and> component ?s = component ?st \<and>
           inputs ?s = rows_upto (length (inputs ?st))
             (\<lambda>i. stored ?st (heap ?st) (or_default (JStr []) (row_value (heap ?st) (JArr 2) i)))
             (inputs ?st)"
    using built_tags by (intro setValue_result) simp_all
  have "inputs ?s = [\<lparr>el_node = 3, el_value = ''x''\<rparr>, \<lparr>el_node = 8, el_value = []\<rparr>]"
    using r built_tags
    by (simp add: rows_upto_def row_value_def index_at_def or_default_def two_arrays_def upt_rec
        js_string_def)
  then show ?thesis
    using r built_tags by (simp add: two_arrays_def js_string_def)
qed

section \<open>Adding and removing rows\<close>

text \<open>An array assigned under the key is what the key reads as, whatever the heap becomes.\<close>

lemma get_prop_assigned_array:
  "get_prop (set_prop k (JArr a) st\<lparr>heap := h\<rparr>) k = JArr a"
  by (simp add: get_prop_def set_prop_def split: option.splits)

lemma ensureArray_array:
  "get_prop st (c_key (component st)) = JArr a \<Longrightarrow> ensureArray st = st"
  by (simp add: ensureArray_def)

lemma ensureArray_falsy:
  assumes "\<not> truthy (get_prop st (c_key (component st)))"
  shows "ensureArray st =
           set_prop (c_key (component st)) (JArr (fresh st))
             (st\<lparr>heap := (heap st)(fresh st := []), fresh := Suc (fresh st)\<rparr>)"
proof -
  let ?k = "c_key (component st)"
  let ?s = "set_prop ?k (JArr (fresh st)) (st\<lparr>heap := (heap st)(fresh st := []), fresh := Suc (fresh st)\<rparr>)"
  have "component ?s = component st"
    by (simp add: set_prop_frame)
  moreover have "get_prop ?s ?k = JArr (fresh st)"
    by (rule get_prop_set_prop_array)
  ultimately show ?thesis
    using assms by (simp add: ensureArray_def alloc_def Let_def)
qed

lemma ensureArray_scalar:
  assumes "truthy (get_prop st (c_key (component st)))"
    and "\<not> isArray (get_prop st (c_key (component st)))"
  shows "ensureArray st =
           set_prop (c_key (component st)) (JArr (fresh st))
             (st\<lparr>heap := (heap st)(fresh st := [get_prop st (c_key (component st))]),
                 fresh := Suc (fresh st)\<rparr>)"
  using assms by (simp add: ensureArray_def alloc_def Let_def)

lemma addNewValue_fresh_array:
  assumes e: "ensureArray st =
                set_prop (c_key (component st)) (JArr (fresh st))
                  (st\<lparr>heap := (heap st)(fresh st := xs), fresh := Suc (fresh st)\<rparr>)"
    and d: "defaultValue (ensureArray st) = Inr d"
  shows "snd (addNewValue st) = None \<and>
         get_prop (fst (addNewValue st)) (c_key (component st)) = JArr (fresh st) \<and>
         heap (fst (addNewValue st)) (fresh st) = xs @ [d]"
proof -
  let ?k = "c_key (component st)"
  let ?t = "st\<lparr>heap := (heap st)(fresh st := xs), fresh := Suc (fresh st)\<rparr>"
  let ?s = "set_prop ?k (JArr (fresh st)) ?t"
  have c: "component ?s = component st" and h: "heap ?s = (heap st)(fresh st := xs)"
    by (simp_all add: set_prop_frame)
  have g: "get_prop ?s ?k = JArr (fresh st)"
    by (rule get_prop_set_prop_array)
  have "addNewValue st = (?s\<lparr>heap := (heap ?s)(fresh st := heap ?s (fresh st) @ [d])\<rparr>, None)"
    using d unfolding addNewValue_def e by (simp add: Let_def c g done_ok_def)
  then show ?thesis
    using h get_prop_assigned_array [where k = ?k and a = "fresh st" and st = ?t] by simp
qed

text \<open>
  Claim C7, amended: when the default value evaluates to \<open>d\<close>, \<^verbatim>\<open>addNewValue\<close> ends
  normally whatever the data object read under the component's key, as an own property
  or through its prototype. When that was an array, the data object is left as it is and
  \<open>d\<close>, and nothing else, is appended to that array. When that was undefined or otherwise
  falsy (null, false, 0, NaN, the empty string), the key reads afterwards as a new array
  holding \<open>d\<close> only; when it was anything else, as a new array holding that value and
  then \<open>d\<close>.
\<close>

theorem addNewValue_appends:
  assumes "defaultValue (ensureArray st) = Inr d"
  shows "snd (addNewValue st) = None \<and>
         (case get_prop st (c_key (component st)) of
            JArr a \<Rightarrow>
              data (fst (addNewValue st)) = data st \<and>
              data_proto (fst (addNewValue st)) = data_proto st \<and>
              heap (fst (addNewValue st)) = (heap st)(a := heap st a @ [d])
          | v \<Rightarrow>
              get_prop (fst (addNewValue st)) (c_key (component st)) = JArr (fresh st) \<and>
              heap (fst (addNewValue st)) (fresh st) = (if truthy v then [v] else []) @ [d])"
proof -
  let ?k = "c_key (component st)"
  let ?v = "get_prop st ?k"
  consider (falsy) "\<not> truthy ?v" | (array) a where "?v = JArr a"
    | (scalar) "truthy ?v" and "\<not> isArray ?v"
    by (cases ?v) auto
  then show ?thesis
  proof cases
    case falsy
    from addNewValue_fresh_array [OF ensureArray_falsy [OF falsy] assms]
    show ?thesis
      using falsy by (cases ?v) simp_all
  next
    case array
    then have e: "ensureArray st = st"
      by (rule ensureArray_array)
    have "addNewValue st = (st\<lparr>heap := (heap st)(a := heap st a @ [d])\<rparr>, None)"
      using assms array by (simp add: addNewValue_def Let_def e done_ok_def)
    then show ?thesis
      using array by simp
  next
    case scalar
    from addNewValue_fresh_array [OF ensureArray_scalar [OF scalar] assms]
    show ?thesis
      using scalar by (cases ?v) simp_all
  qed
qed

lemma scalar_tags_fields:
  "component scalar_tags = tags_field \<and> data scalar_tags = [''tags'' \<mapsto> JStr ''a''] \<and>
   fresh scalar_tags = 1 \<and> heap scalar_tags = (\<lambda>a. [])"
  by (simp add: scalar_tags_def init_def)

theorem addNewValue_appends_witness:
  "snd (addNewValue scalar_tags) = None \<and>
   get_prop (fst (addNewValue scalar_tags)) ''tags'' = JArr 1 \<and>
   heap (fst (addNewValue scalar_tags)) 1 = [JStr ''a'', JStr []]"
proof -
  have "defaultValue (ensureArray scalar_tags) = Inr (JStr [])"
    by (simp add: defaultValue_def ensureArray_def alloc_def get_prop_def set_prop_def Let_def
        scalar_tags_fields tags_field_def)
  from addNewValue_appends [OF this] show ?thesis
    by (simp add: scalar_tags_fields tags_field_def get_prop_def)
qed

text \<open>
  Claim C7 as stated fails for a falsy scalar: an entry holding the number 0 is not
  coerced into the one-element sequence \<^verbatim>\<open>[0]\<close>. It is replaced by an empty array, so
  that after \<^verbatim>\<open>addNewValue\<close> the entry is \<^verbatim>\<open>[""]\<close> and not \<^verbatim>\<open>[0, ""]\<close>.
\<close>

theorem addNewValue_falsy_counterexample:
  "data zero_tags (c_key (component zero_tags)) = Some (JNum 0) \<and>
   get_prop zero_tags (c_key (component zero_tags)) = JNum 0 \<and>
   snd (addNewValue zero_tags) = None \<and>
   data (fst (addNewValue zero_tags)) (c_key (component zero_tags)) = Some (JArr 1) \<and>
   heap (fst (addNewValue zero_tags)) 1 = [JStr []] \<and>
   heap (fst (addNewValue zero_tags)) 1 \<noteq> [JNum 0, JStr []]"
  by (simp add: addNewValue_def ensureArray_def defaultValue_def alloc_def get_prop_def
      set_prop_def Let_def done_ok_def zero_tags_def init_def tags_field_def)

lemma and_then_kept:
  assumes "g (fst r) = x" and "\<And>s. g (fst (f s)) = g s"
  shows "g (fst (and_then r f)) = x"
  using assms by (cases r) (auto simp add: and_then_def split: option.splits)

lemma kept_fields:
  "kept s = kept st \<longleftrightarrow>
     component s = component st \<and> data s = data st \<and> data_proto s = data_proto st \<and>
     heap s = heap st \<and> inherited s = inherited st \<and> host_call s = host_call st \<and>
     stored s = stored st"
  by (auto simp add: kept_def)

lemma get_prop_kept: "kept s = kept st \<Longrightarrow> get_prop s k = get_prop st k"
  by (rule get_prop_cong) (simp_all add: kept_fields)

lemma has_own_kept: "kept s = kept st \<Longrightarrow> has_own s k = has_own st k"
  using get_prop_kept [of s st "''hasOwnProperty''"] by (simp add: has_own_def Let_def kept_fields)

lemma defaultValue_kept: "kept s = kept st \<Longrightarrow> defaultValue s = defaultValue st"
  by (rule defaultValue_cong) (simp_all add: kept_fields)

lemma setValueAt_kept: "kept (fst (setValueAt i x st)) = kept st"
  by (simp add: setValueAt_def kept_def done_ok_def throw_def split: sum.splits)

lemma setValue_loop_kept: "kept (fst (setValue_loop is v st)) = kept st"
proof (induction "is" arbitrary: st)
  case Nil
  show ?case by (simp add: done_ok_def)
next
  case (Cons i rest)
  show ?case
    unfolding setValue_loop.simps
    by (rule and_then_kept) (simp_all add: setValueAt_kept Cons)
qed

lemma setValue_noUpdate_kept: "kept (fst (setValue v True nv st)) = kept st"
proof (cases "c_input (component st)")
  case True
  have "kept (fst (setValue_loop [0..<length (inputs st)] v (st\<lparr>this_value := v\<rparr>))) = kept st"
    by (simp add: setValue_loop_kept) (simp add: kept_def)
  then show ?thesis
    using True unfolding setValue_def
    by (simp add: and_then_kept [where g = kept] done_ok_def)
next
  case False
  then show ?thesis by (simp add: setValue_def done_ok_def)
qed

lemma addEventListener_kept: "kept (addEventListener n e f st) = kept st"
  by (simp add: addEventListener_def kept_def)

lemma addInput_kept: "kept (fst (addInput n st)) = kept st"
  by (simp add: addInput_def new_id_def Let_def addEventListener_def
      setValue_noUpdate_kept done_ok_def throw_def split: sum.splits)
     (simp add: kept_def)

lemma createInput_kept: "kept (fst (createInput st)) = kept st"
  by (simp add: createInput_def new_id_def Let_def addInput_kept) (simp add: kept_def)

lemma removeButton_kept: "kept (removeButton st) = kept st"
  by (simp add: removeButton_def new_id_def addEventListener_def kept_def)

lemma addButton_kept: "kept (addButton st) = kept st"
  by (simp add: addButton_def new_id_def addEventListener_def kept_def)

lemma buildRows_loop_kept: "kept (fst (buildRows_loop n st)) = kept st"
proof (induction n arbitrary: st)
  case 0
  show ?case by (simp add: done_ok_def)
next
  case (Suc n)
  show ?case
    unfolding buildRows_loop.simps
    by (rule and_then_kept) (simp_all add: createInput_kept Suc removeButton_kept)
qed

lemma buildRows_kept: "kept (fst (buildRows st)) = kept st"
proof (cases "tbody st")
  case True
  have loop: "kept (fst (buildRows_loop (each_count st (get_prop st (c_key (component st))))
                    (st\<lparr>inputs := []\<rparr>))) = kept st"
    by (simp add: buildRows_loop_kept) (simp add: kept_def)
  have fin: "kept (fst (let s1 = addButton s
                        in done_ok (if readOnly s1 \<or> c_disabled (component s1)
                                    then s1\<lparr>disabled := True\<rparr> else s1))) = kept s" for s
  proof -
    have "kept (addButton s\<lparr>disabled := True\<rparr>) = kept (addButton s)"
      by (simp add: kept_def)
    then show ?thesis
      by (simp add: Let_def done_ok_def addButton_kept)
  qed
  show ?thesis
    unfolding buildRows_def using True
    by (simp only: if_True) (rule and_then_kept [OF loop fin])
next
  case False
  then show ?thesis by (simp add: buildRows_def done_ok_def)
qed

lemma splice1_at_end: "splice1 (int (length xs)) xs = xs"
  by (simp add: splice1_def)

lemma splice1_last: "splice1 (int (length xs)) (xs @ [x]) = xs"
  by (simp add: splice1_def)

text \<open>
  The index of an array is written in digits, so no index is the name
  \<^verbatim>\<open>hasOwnProperty\<close>, and what the data object reads under that name does not depend on
  the contents of any array.
\<close>

lemma decimal_digits: "set (decimal n) \<subseteq> set ''0123456789''"
proof (induction n rule: decimal.induct)
  case (1 n)
  show ?case
  proof (cases "n < 10")
    case True
    then have "''0123456789'' ! n \<in> set ''0123456789''"
      by (intro nth_mem) simp
    then show ?thesis
      using True by (subst decimal.simps) simp
  next
    case False
    have "''0123456789'' ! (n mod 10) \<in> set ''0123456789''"
      by (intro nth_mem) simp
    then show ?thesis
      using False 1 by (subst decimal.simps) simp
  qed
qed

lemma decimal_not_method: "decimal i \<noteq> ''hasOwnProperty''"
proof
  assume "decimal i = ''hasOwnProperty''"
  then have "CHR ''h'' \<in> set (decimal i)"
    by simp
  then show False
    using decimal_digits [of i] by auto
qed

lemma get_prop_method_heap:
  "get_prop (st\<lparr>heap := h\<rparr>) ''hasOwnProperty'' = get_prop st ''hasOwnProperty''"
proof -
  have "find (\<lambda>i. decimal i = ''hasOwnProperty'') xs = None" for xs
    by (simp add: find_None_iff decimal_not_method)
  then show ?thesis
    by (simp add: get_prop_def via_proto_def split: option.splits jsval.splits)
qed

text \<open>
  With an array as own property under the key, \<^verbatim>\<open>addValue\<close> leaves the array as it was or
  with one value appended, and everything else of the data object as it was.
\<close>

lemma addValue_on_array:
  assumes "data st (c_key (component st)) = Some (JArr a)"
  shows "kept (fst (addValue st)) = kept st \<or>
         (\<exists>d. kept (fst (addValue st)) = kept (st\<lparr>heap := (heap st)(a := heap st a @ [d])\<rparr>))"
proof -
  have l: "get_prop st (c_key (component st)) = JArr a"
    using assms by (rule get_prop_own)
  then have e: "ensureArray st = st"
    by (rule ensureArray_array)
  show ?thesis
  proof (cases "defaultValue st")
    case (Inl err)
    then have "addValue st = (st, Some err)"
      by (simp add: addValue_def addNewValue_def e l throw_def)
    then show ?thesis by simp
  next
    case (Inr d)
    let ?s = "st\<lparr>heap := (heap st)(a := heap st a @ [d])\<rparr>"
    have "addValue st = buildRows ?s"
      using Inr by (simp add: addValue_def addNewValue_def e l done_ok_def)
    moreover have "kept (fst (buildRows ?s)) = kept ?s"
      by (rule buildRows_kept)
    ultimately show ?thesis
      by auto
  qed
qed

lemma has_own_after_push:
  assumes "kept s = kept (st\<lparr>heap := h\<rparr>)"
    and "get_prop st ''hasOwnProperty'' = hasOwnProperty_builtin"
  shows "has_own s k = Inr (data st k \<noteq> None)"
proof -
  have "get_prop s ''hasOwnProperty'' = hasOwnProperty_builtin"
    using assms get_prop_kept [OF assms(1)] by (simp add: get_prop_method_heap)
  then show ?thesis
    using assms(1) by (simp add: builtin_has_own kept_fields)
qed

text \<open>
  Rendering rows ends normally when the default value can be computed in every state of
  the component and the data object's \<^verbatim>\<open>hasOwnProperty\<close> is the built-in method.
\<close>

lemma setValue_ends:
  assumes "\<exists>d. defaultValue st = Inr d"
  shows "snd (setValue v noUpdate noValidate st) = None"
proof (cases "c_input (component st)")
  case True
  obtain d where "defaultValue st = Inr d"
    using assms by blast
  then show ?thesis
    using setValue_result [OF True, of v d noUpdate noValidate] by simp
next
  case False
  then show ?thesis by (simp add: setValue_def done_ok_def)
qed

lemma addInput_ends:
  assumes "\<And>s. component s = component st \<Longrightarrow> \<exists>d. defaultValue s = Inr d"
    and "get_prop st ''hasOwnProperty'' = hasOwnProperty_builtin"
  shows "snd (addInput n st) = None"
proof -
  define s5 where "s5 =
    addEventListener n ''keypress'' (Suc (fresh st))
      (addEventListener n ''change'' (fresh st)
         (st\<lparr>inputs := inputs st @ [\<lparr>el_node = n, el_value = []\<rparr>], fresh := Suc (fresh st)\<rparr>)
       \<lparr>fresh := Suc (Suc (fresh st))\<rparr>)"
  have a: "addInput n st =
      (case has_own s5 (c_key (component s5)) of
         Inl e \<Rightarrow> throw e s5
       | Inr b \<Rightarrow> (if b then setValue (get_prop s5 (c_key (component s5))) True False s5
                   else done_ok s5))"
    by (simp add: addInput_def new_id_def Let_def s5_def addEventListener_def
        cong: sum.case_cong if_cong)
  have k: "kept s5 = kept st"
    by (simp add: s5_def kept_def addEventListener_def)
  obtain b where b: "has_own s5 (c_key (component s5)) = Inr b"
    using has_own_kept [OF k] builtin_has_own [OF assms(2)] by simp
  have "\<exists>d. defaultValue s5 = Inr d"
    using assms(1) [of s5] k by (simp add: kept_fields)
  then show ?thesis
    by (simp add: a b setValue_ends done_ok_def)
qed

lemma createInput_ends:
  assumes "\<And>s. component s = component st \<Longrightarrow> \<exists>d. defaultValue s = Inr d"
    and "get_prop st ''hasOwnProperty'' = hasOwnProperty_builtin"
  shows "snd (createInput st) = None"
proof -
  have "snd (addInput n s) = None" if "kept s = kept st" for n s
  proof (rule addInput_ends)
    show "\<exists>d. defaultValue s' = Inr d" if "component s' = component s" for s'
      using that \<open>kept s = kept st\<close> assms(1) [of s'] by (simp add: kept_fields)
    show "get_prop s ''hasOwnProperty'' = hasOwnProperty_builtin"
      using get_prop_kept [OF \<open>kept s = kept st\<close>] assms(2) by simp
  qed
  moreover have "kept (st\<lparr>fresh := x\<rparr>) = kept st \<and> kept (st\<lparr>fresh := x, inputMask := True\<rparr>) = kept st" for x
    by (simp add: kept_def)
  ultimately show ?thesis
    by (simp add: createInput_def new_id_def Let_def)
qed

lemma buildRows_loop_ends:
  assumes "\<And>s. component s = component st \<Longrightarrow> \<exists>d. defaultValue s = Inr d"
    and "get_prop st ''hasOwnProperty'' = hasOwnProperty_builtin"
  shows "snd (buildRows_loop n st) = None"
  using assms
proof (induction n arbitrary: st)
  case 0
  show ?case by (simp add: done_ok_def)
next
  case (Suc n)
  obtain s1 where c: "createInput st = (s1, None)"
    using createInput_ends [of st] Suc.prems by (cases "createInput st") auto
  have "kept s1 = kept st"
    using createInput_kept [of st] c by simp
  then have k: "kept (removeButton s1) = kept st"
    using removeButton_kept [of s1] by simp
  have "snd (buildRows_loop n (removeButton s1)) = None"
  proof (rule Suc.IH)
    show "\<exists>d. defaultValue s' = Inr d" if "component s' = component (removeButton s1)" for s'
      using that k Suc.prems(1) [of s'] by (simp add: kept_fields)
    show "get_prop (removeButton s1) ''hasOwnProperty'' = hasOwnProperty_builtin"
      using get_prop_kept [OF k] Suc.prems(2) by simp
  qed
  then show ?case
    by (simp add: c)
qed

lemma buildRows_ends:
  assumes "\<And>s. component s = component st \<Longrightarrow> \<exists>d. defaultValue s = Inr d"
    and "get_prop st ''hasOwnProperty'' = hasOwnProperty_builtin"
  shows "snd (buildRows st) = None"
proof (cases "tbody st")
  case True
  let ?n = "each_count st (get_prop st (c_key (component st)))"
  have k: "kept (st\<lparr>inputs := []\<rparr>) = kept st"
    by (simp add: kept_def)
  have "snd (buildRows_loop ?n (st\<lparr>inputs := []\<rparr>)) = None"
  proof (rule buildRows_loop_ends)
    show "\<exists>d. defaultValue s' = Inr d" if "component s' = component (st\<lparr>inputs := []\<rparr>)" for s'
      using that assms(1) [of s'] by simp
    show "get_prop (st\<lparr>inputs := []\<rparr>) ''hasOwnProperty'' = hasOwnProperty_builtin"
      using get_prop_kept [OF k] assms(2) by simp
  qed
  then obtain s1 where "buildRows_loop ?n (st\<lparr>inputs := []\<rparr>) = (s1, None)"
    by (cases "buildRows_loop ?n (st\<lparr>inputs := []\<rparr>)") auto
  then show ?thesis
    using True by (simp add: buildRows_def Let_def done_ok_def)
next
  case False
  then show ?thesis by (simp add: buildRows_def done_ok_def)
qed

text \<open>So do \<^verbatim>\<open>addValue\<close> and the \<^verbatim>\<open>removeValue\<close> after it, with an array as own property under the key.\<close>

lemma addValue_removeValue_end:
  assumes "data st (c_key (component st)) = Some (JArr a)"
    and "get_prop st ''hasOwnProperty'' = hasOwnProperty_builtin"
    and "\<And>s. component s = component st \<Longrightarrow> \<exists>d. defaultValue s = Inr d"
  shows "snd (addValue st) = None \<and> snd (removeValue n (fst (addValue st))) = None"
proof -
  let ?k = "c_key (component st)"
  obtain d where d: "defaultValue st = Inr d"
    using assms(3) by blast
  have l: "get_prop st ?k = JArr a"
    using assms(1) by (rule get_prop_own)
  then have e: "ensureArray st = st"
    by (rule ensureArray_array)
  let ?s = "st\<lparr>heap := (heap st)(a := heap st a @ [d])\<rparr>"
  have av: "addValue st = buildRows ?s"
    using d by (simp add: addValue_def addNewValue_def e l done_ok_def)
  have a_ok: "snd (addValue st) = None"
    unfolding av
  proof (rule buildRows_ends)
    show "\<exists>d. defaultValue s' = Inr d" if "component s' = component ?s" for s'
      using that assms(3) [of s'] by simp
    show "get_prop ?s ''hasOwnProperty'' = hasOwnProperty_builtin"
      using assms(2) by (simp add: get_prop_method_heap)
  qed
  let ?s1 = "fst (addValue st)"
  have k: "kept ?s1 = kept ?s"
    unfolding av by (rule buildRows_kept)
  have c: "component ?s1 = component st" and dt: "data ?s1 = data st"
    using k by (simp_all add: kept_fields)
  have own: "has_own ?s1 ?k = Inr True"
    using has_own_after_push [OF k assms(2), of ?k] assms(1) by simp
  have g: "get_prop ?s1 ?k = JArr a"
    using assms(1) dt by (intro get_prop_own) simp
  let ?s2 = "?s1\<lparr>heap := (heap ?s1)(a := splice1 n (heap ?s1 a))\<rparr>"
  have "removeValue n ?s1 = buildRows ?s2"
    using own g c by (simp add: removeValue_def done_ok_def)
  moreover have "snd (buildRows ?s2) = None"
  proof (rule buildRows_ends)
    show "\<exists>d. defaultValue s' = Inr d" if "component s' = component ?s2" for s'
      using that c assms(3) [of s'] by simp
    have "get_prop ?s1 ''hasOwnProperty'' = hasOwnProperty_builtin"
      using get_prop_kept [OF k, of "''hasOwnProperty''"] assms(2)
      by (simp add: get_prop_method_heap)
    then show "get_prop ?s2 ''hasOwnProperty'' = hasOwnProperty_builtin"
      by (simp add: get_prop_method_heap)
  qed
  ultimately show ?thesis
    using a_ok by simp
qed

text \<open>
  Claim C6, amended: when the data object's \<^verbatim>\<open>hasOwnProperty\<close> is the built-in method and
  its own property under the component's key is a sequence, \<^verbatim>\<open>addValue()\<close> followed by
  \<^verbatim>\<open>removeValue(n)\<close>, where \<open>n\<close> is the length the sequence had, leaves the entry the same
  array with the same elements. This holds whether or not a call throws; only the
  evaluation of the default value can throw here, and where it cannot, both calls end
  normally (\<open>addValue_removeValue_end\<close>).
\<close>

theorem addValue_removeValue_restores:
  assumes "data st (c_key (component st)) = Some (JArr a)"
    and "get_prop st ''hasOwnProperty'' = hasOwnProperty_builtin"
  shows "data (fst (removeValue (int (length (heap st a))) (fst (addValue st))))
           (c_key (component st)) = Some (JArr a) \<and>
         heap (fst (removeValue (int (length (heap st a))) (fst (addValue st)))) a = heap st a"
proof -
  let ?s1 = "fst (addValue st)"
  let ?n = "int (length (heap st a))"
  let ?k = "c_key (component st)"
  from addValue_on_array [OF assms(1)]
  obtain h where k: "kept ?s1 = kept (st\<lparr>heap := h\<rparr>)"
    and h: "h = heap st \<or> (\<exists>d. h = (heap st)(a := heap st a @ [d]))"
    by (auto simp add: kept_def)
  have c: "component ?s1 = component st" and d: "data ?s1 = data st" and hp: "heap ?s1 = h"
    using k by (simp_all add: kept_fields)
  have sp: "splice1 ?n (heap ?s1 a) = heap st a"
    using h hp by (auto simp add: splice1_at_end splice1_last)
  have own: "has_own ?s1 ?k = Inr True"
    using has_own_after_push [OF k assms(2), of ?k] assms(1) by simp
  have g: "get_prop ?s1 ?k = JArr a"
    using assms(1) d by (intro get_prop_own) simp
  let ?s2 = "?s1\<lparr>heap := (heap ?s1)(a := splice1 ?n (heap ?s1 a))\<rparr>"
  have "removeValue ?n ?s1 = buildRows ?s2"
    using own g c by (simp add: removeValue_def done_ok_def)
  moreover have "kept (fst (buildRows ?s2)) = kept ?s2"
    by (rule buildRows_kept)
  ultimately show ?thesis
    using assms(1) d sp by (simp add: kept_fields)
qed

lemma built_tags_data:
  "c_key (component (fst (build new_tags))) = ''tags'' \<and>
   data (fst (build new_tags)) ''tags'' = Some (JArr 1) \<and>
   heap (fst (build new_tags)) 1 = [JStr ''a'', JStr ''b''] \<and>
   get_prop (fst (build new_tags)) ''hasOwnProperty'' = hasOwnProperty_builtin"
  by (simp add: build_new_tags new_tags_fields tags_field_def two_arrays_def get_prop_def
      via_proto_def plain_inherited_def object_members_def object_prototype_def
      hasOwnProperty_builtin_def)

theorem addValue_removeValue_restores_witness:
  "data (fst (removeValue 2 (fst (addValue (fst (build new_tags)))))) ''tags'' = Some (JArr 1) \<and>
   heap (fst (removeValue 2 (fst (addValue (fst (build new_tags)))))) 1 = [JStr ''a'', JStr ''b'']"
proof -
  let ?st = "fst (build new_tags)"
  have d: "data ?st (c_key (component ?st)) = Some (JArr 1)"
    using built_tags_data by simp
  have m: "get_prop ?st ''hasOwnProperty'' = hasOwnProperty_builtin"
    using built_tags_data by simp
  have n: "int (length (heap ?st 1)) = 2"
    using built_tags_data by simp
  from addValue_removeValue_restores [OF d m] show ?thesis
    unfolding n using built_tags_data by simp
qed

text \<open>
  Claim C6 as stated fails when the sequence is stored under the key \<^verbatim>\<open>hasOwnProperty\<close>:
  \<^verbatim>\<open>addValue()\<close> appends the default value, and \<^verbatim>\<open>removeValue(2)\<close> then calls the array
  as if it were the method (line 464), a TypeError raised before anything is removed.
  The entry is left with three elements.
\<close>

theorem addValue_removeValue_shadowed_counterexample:
  "c_multiple (component shadowing_tags) \<and>
   data shadowing_tags (c_key (component shadowing_tags)) = Some (JArr 1) \<and>
   heap shadowing_tags 1 = [JStr ''a'', JStr ''b''] \<and>
   snd (addValue shadowing_tags) = None \<and>
   snd (removeValue 2 (fst (addValue shadowing_tags))) = Some TypeError \<and>
   data (fst (removeValue 2 (fst (addValue shadowing_tags)))) (c_key (component shadowing_tags))
     = Some (JArr 1) \<and>
   heap (fst (removeValue 2 (fst (addValue shadowing_tags)))) 1 =
     [JStr ''a'', JStr ''b'', JStr []]"
proof -
  have a: "addValue shadowing_tags =
             (shadowing_tags\<lparr>heap := two_arrays(1 := [JStr ''a'', JStr ''b'', JStr []])\<rparr>, None)"
    by (simp add: addValue_def addNewValue_def ensureArray_def buildRows_def defaultValue_def
        get_prop_def shadowing_tags_def init_def tags_field_def two_arrays_def run_defs
        cong: and_then_weak_cong let_weak_cong)
  have "removeValue 2 (shadowing_tags\<lparr>heap := two_arrays(1 := [JStr ''a'', JStr ''b'', JStr []])\<rparr>) =
          (shadowing_tags\<lparr>heap := two_arrays(1 := [JStr ''a'', JStr ''b'', JStr []])\<rparr>,
           Some TypeError)"
    by (simp add: removeValue_def has_own_def get_prop_def hasOwnProperty_builtin_def
        shadowing_tags_def init_def tags_field_def throw_def)
  then show ?thesis
    by (simp add: a) (simp add: shadowing_tags_def init_def tags_field_def two_arrays_def)
qed

section \<open>Teardown\<close>

lemma destroy_listeners_result:
  assumes "events st \<or> off_calls all ls = []"
  shows "destroy_listeners all ls st =
           (st\<lparr>hub := fold remove1 (off_calls all ls) (hub st),
               off_log := off_log st @ off_calls all ls\<rparr>, None)"
  using assms
proof (induction ls arbitrary: st)
  case Nil
  show ?case by (simp add: off_calls_def done_ok_def)
next
  case (Cons l rest)
  show ?case
  proof (cases "all \<or> l_internal l")
    case True
    then have ev: "events st"
      using Cons.prems by (auto simp add: off_calls_def)
    let ?s = "st\<lparr>hub := remove1 (l_type l, l_listener l) (hub st),
                 off_log := off_log st @ [(l_type l, l_listener l)]\<rparr>"
    have "destroy_listeners all rest ?s =
            (?s\<lparr>hub := fold remove1 (off_calls all rest) (hub ?s),
                 off_log := off_log ?s @ off_calls all rest\<rparr>, None)"
      using ev by (intro Cons.IH) simp
    then show ?thesis
      using True ev by (auto simp add: off_calls_def)
  next
    case False
    then have "off_calls all (l # rest) = off_calls all rest"
      by (simp add: off_calls_def)
    then show ?thesis
      using False Cons.IH [of st] Cons.prems by auto
  qed
qed

lemma destroy_handlers_result:
  "destroy_handlers hs st =
     st\<lparr>dom_listeners :=
          fold (\<lambda>h. removeAll (window, ''undefined'', h_func h)) hs (dom_listeners st),
        removed_log := removed_log st @ remove_calls hs\<rparr>"
  by (induction hs arbitrary: st) (simp_all add: remove_calls_def)

lemma destroy_result:
  assumes "events st \<or> off_calls all (eventListeners st) = []"
  shows "destroy all st =
           (st\<lparr>hub := fold remove1 (off_calls all (eventListeners st)) (hub st),
               off_log := off_log st @ off_calls all (eventListeners st),
               dom_listeners :=
                 fold (\<lambda>h. removeAll (window, ''undefined'', h_func h)) (eventHandlers st)
                   (dom_listeners st),
               removed_log := removed_log st @ remove_calls (eventHandlers st)\<rparr>, None)"
  using assms by (simp add: destroy_def destroy_listeners_result destroy_handlers_result done_ok_def)

lemma mset_fold_remove1: "mset (fold remove1 ps h) = mset h - mset ps"
  by (induction ps arbitrary: h) simp_all

text \<open>
  The hub after \<^verbatim>\<open>destroy(all)\<close>: one registration less for every recorded listener that
  is internal, or for every recorded listener when \<open>all\<close> is set, and nothing else changed.
\<close>

lemma destroy_hub:
  assumes "events st \<or> off_calls all (eventListeners st) = []"
  shows "mset (hub (fst (destroy all st))) =
           mset (hub st) - mset (off_calls all (eventListeners st))"
  using assms by (simp add: destroy_result mset_fold_remove1)

lemma fold_removeAll_set:
  "set (fold (\<lambda>h. removeAll (n, e, h_func h)) hs xs) = set xs - (\<lambda>h. (n, e, h_func h)) ` set hs"
  by (induction hs arbitrary: xs) auto

lemma fold_removeAll_absent:
  "(\<And>h. h \<in> set hs \<Longrightarrow> (n, e, h_func h) \<notin> set xs) \<Longrightarrow>
   fold (\<lambda>h. removeAll (n, e, h_func h)) hs xs = xs"
  by (induction hs arbitrary: xs) simp_all

text \<open>
  The raw listeners after \<^verbatim>\<open>destroy\<close>: unless a listener for an event named
  \<^verbatim>\<open>"undefined"\<close> sits on the window, none is removed.
\<close>

lemma destroy_listeners_nodes:
  "dom_listeners (fst (destroy_listeners all ls s)) = dom_listeners s \<and>
   eventHandlers (fst (destroy_listeners all ls s)) = eventHandlers s"
  by (induction ls arbitrary: s) (auto simp add: done_ok_def throw_def)

lemma destroy_detaches_nothing:
  assumes "\<And>f. (window, ''undefined'', f) \<notin> set (dom_listeners st)"
  shows "dom_listeners (fst (destroy all st)) = dom_listeners st"
proof -
  obtain a r where dl: "destroy_listeners all (eventListeners st) st = (a, r)"
    by (cases "destroy_listeners all (eventListeners st) st")
  have a: "dom_listeners a = dom_listeners st"
    using destroy_listeners_nodes [of all "eventListeners st" st] dl by simp
  show ?thesis
  proof (cases r)
    case None
    have "dom_listeners (destroy_handlers (eventHandlers a) a) = dom_listeners a"
      using a assms by (simp add: destroy_handlers_result fold_removeAll_absent)
    then show ?thesis
      using None dl a by (simp add: destroy_def done_ok_def)
  next
    case (Some e)
    then show ?thesis
      using dl a by (simp add: destroy_def)
  qed
qed

text \<open>
  Claim C4 at the built text field: \<^verbatim>\<open>build\<close> attached a change and a keypress listener to
  the input node 3, and after \<^verbatim>\<open>destroy(true)\<close> both are still attached to it. The
  deregistration from the hub, the other part of the claim, is \<open>destroy_hub\<close>.
\<close>

theorem destroy_keeps_raw_listeners:
  "dom_listeners (fst (build new_text)) = [(3, ''change'', 4), (3, ''keypress'', 5)] \<and>
   eventHandlers (fst (build new_text)) =
     [\<lparr>h_type = ''change'', h_func = 4\<rparr>, \<lparr>h_type = ''keypress'', h_func = 5\<rparr>] \<and>
   snd (destroy True (fst (build new_text))) = None \<and>
   dom_listeners (fst (destroy True (fst (build new_text)))) =
     [(3, ''change'', 4), (3, ''keypress'', 5)]"
proof -
  let ?st = "fst (build new_text)"
  have st: "dom_listeners ?st = [(3, ''change'', 4), (3, ''keypress'', 5)] \<and>
            eventHandlers ?st =
              [\<lparr>h_type = ''change'', h_func = 4\<rparr>, \<lparr>h_type = ''keypress'', h_func = 5\<rparr>] \<and>
            eventListeners ?st = [] \<and> events ?st"
    by (simp add: build_new_text) (simp add: new_text_def init_def)
  have "snd (destroy True ?st) = None \<and>
        dom_listeners (fst (destroy True ?st)) =
          fold (\<lambda>h. removeAll (window, ''undefined'', h_func h)) (eventHandlers ?st)
            (dom_listeners ?st)"
    using st by (simp add: destroy_result)
  then show ?thesis
    using st by (simp add: window_def)
qed

lemma fold_remove1_absent:
  "(\<And>p. p \<in> set ps \<Longrightarrow> p \<notin> set h) \<Longrightarrow> fold remove1 ps h = h"
  by (induction ps arbitrary: h) (simp_all add: remove1_idem)

text \<open>
  Claim C5, amended: when the instance has a hub (or nothing to deregister from it),
  \<^verbatim>\<open>destroy(all)\<close> called twice in a row throws neither time. The second call makes the
  same calls of \<^verbatim>\<open>events.off\<close> and of \<^verbatim>\<open>window.removeEventListener\<close> as the first. It
  removes no raw listener, and it leaves the hub as the first call left it provided the
  hub held each (event, callback) pair that \<^verbatim>\<open>destroy\<close> deregisters no more often than
  \<^verbatim>\<open>destroy\<close> deregisters it, that is, provided no other registration of such a pair
  exists.
\<close>

theorem destroy_twice:
  assumes "events st \<or> off_calls all (eventListeners st) = []"
  shows "snd (destroy all st) = None \<and>
         snd (destroy all (fst (destroy all st))) = None \<and>
         off_log (fst (destroy all st)) = off_log st @ off_calls all (eventListeners st) \<and>
         off_log (fst (destroy all (fst (destroy all st)))) =
           off_log (fst (destroy all st)) @ off_calls all (eventListeners st) \<and>
         removed_log (fst (destroy all st)) =
           removed_log st @ remove_calls (eventHandlers st) \<and>
         removed_log (fst (destroy all (fst (destroy all st)))) =
           removed_log (fst (destroy all st)) @ remove_calls (eventHandlers st) \<and>
         dom_listeners (fst (destroy all (fst (destroy all st)))) =
           dom_listeners (fst (destroy all st)) \<and>
         ((\<forall>p\<in>set (off_calls all (eventListeners st)).
             count_list (hub st) p \<le> count_list (off_calls all (eventListeners st)) p) \<longrightarrow>
          hub (fst (destroy all (fst (destroy all st)))) = hub (fst (destroy all st)))"
proof -
  let ?R = "off_calls all (eventListeners st)"
  let ?H = "fold remove1 ?R (hub st)"
  let ?D = "fold (\<lambda>h. removeAll (window, ''undefined'', h_func h)) (eventHandlers st) (dom_listeners st)"
  let ?s1 = "st\<lparr>hub := ?H, off_log := off_log st @ ?R, dom_listeners := ?D,
               removed_log := removed_log st @ remove_calls (eventHandlers st)\<rparr>"
  have first: "destroy all st = (?s1, None)"
    using assms by (rule destroy_result)
  have "(window, ''undefined'', h_func h) \<notin> set ?D" if "h \<in> set (eventHandlers st)" for h
    using that by (auto simp add: fold_removeAll_set)
  then have nodes: "fold (\<lambda>h. removeAll (window, ''undefined'', h_func h)) (eventHandlers st) ?D = ?D"
    by (rule fold_removeAll_absent)
  have second: "destroy all ?s1 =
      (?s1\<lparr>hub := fold remove1 ?R ?H, off_log := off_log ?s1 @ ?R,
           dom_listeners := fold (\<lambda>h. removeAll (window, ''undefined'', h_func h)) (eventHandlers st) ?D,
           removed_log := removed_log ?s1 @ remove_calls (eventHandlers st)\<rparr>, None)"
    using assms destroy_result [of ?s1 all] by simp
  have hub: "fold remove1 ?R ?H = ?H"
    if c: "\<forall>p\<in>set ?R. count_list (hub st) p \<le> count_list ?R p"
  proof (rule fold_remove1_absent)
    fix p
    assume p: "p \<in> set ?R"
    then have "count (mset ?H) p = 0"
      using c by (simp add: mset_fold_remove1 count_mset)
    then show "p \<notin> set ?H"
      by (metis count_mset_0_iff)
  qed
  show ?thesis
    unfolding first fst_conv snd_conv second using hub nodes by simp
qed

lemma listening_text_fields:
  "events listening_text \<and>
   eventListeners listening_text =
     [\<lparr>l_type = ''formio.submit'', l_listener = 7, l_internal = True\<rparr>,
      \<lparr>l_type = ''formio.change'', l_listener = 8, l_internal = False\<rparr>] \<and>
   hub listening_text = [(''formio.submit'', 7), (''formio.change'', 8)] \<and>
   off_log listening_text = [] \<and> removed_log listening_text = [] \<and>
   eventHandlers listening_text =
     [\<lparr>h_type = ''change'', h_func = 4\<rparr>, \<lparr>h_type = ''keypress'', h_func = 5\<rparr>] \<and>
   dom_listeners listening_text = [(3, ''change'', 4), (3, ''keypress'', 5)]"
  by (simp add: listening_text_def build_new_text on_def new_text_fields)

theorem destroy_twice_witness:
  "snd (destroy True listening_text) = None \<and>
   snd (destroy True (fst (destroy True listening_text))) = None \<and>
   off_log (fst (destroy True listening_text)) = [(''formio.submit'', 7), (''formio.change'', 8)] \<and>
   off_log (fst (destroy True (fst (destroy True listening_text)))) =
     [(''formio.submit'', 7), (''formio.change'', 8), (''formio.submit'', 7), (''formio.change'', 8)] \<and>
   removed_log (fst (destroy True (fst (destroy True listening_text)))) =
     [(''undefined'', 4), (''undefined'', 5), (''undefined'', 4), (''undefined'', 5)] \<and>
   hub (fst (destroy True listening_text)) = [] \<and>
   hub (fst (destroy True (fst (destroy True listening_text)))) = []"
proof -
  have "hub (fst (destroy True listening_text)) = []"
    by (simp add: destroy_result listening_text_fields off_calls_def)
  then show ?thesis
    using destroy_twice [of listening_text True]
    by (simp add: listening_text_fields off_calls_def remove_calls_def)
qed

text \<open>
  Claim C5 as stated fails when a callback is registered twice for one event, once
  internally and once externally: the first \<^verbatim>\<open>destroy()\<close> removes one registration and
  leaves the other, and the second \<^verbatim>\<open>destroy()\<close> removes that one too.
\<close>

theorem destroy_twice_counterexample:
  "hub twice_registered = [(''formio.x'', 7), (''formio.x'', 7)] \<and>
   map l_internal (eventListeners twice_registered) = [True, False] \<and>
   snd (destroy False twice_registered) = None \<and>
   hub (fst (destroy False twice_registered)) = [(''formio.x'', 7)] \<and>
   snd (destroy False (fst (destroy False twice_registered))) = None \<and>
   hub (fst (destroy False (fst (destroy False twice_registered)))) = []"
proof -
  have st: "events twice_registered \<and> hub twice_registered = [(''formio.x'', 7), (''formio.x'', 7)] \<and>
      eventListeners twice_registered =
        [\<lparr>l_type = ''formio.x'', l_listener = 7, l_internal = True\<rparr>,
         \<lparr>l_type = ''formio.x'', l_listener = 7, l_internal = False\<rparr>]"
    by (simp add: twice_registered_def on_def new_text_def init_def)
  let ?s1 = "fst (destroy False twice_registered)"
  have first: "snd (destroy False twice_registered) = None \<and> events ?s1 \<and>
      hub ?s1 = [(''formio.x'', 7)] \<and> eventListeners ?s1 = eventListeners twice_registered"
    using st by (simp add: destroy_result off_calls_def)
  have "hub (fst (destroy False ?s1)) = fold remove1 (off_calls False (eventListeners ?s1)) (hub ?s1) \<and>
        snd (destroy False ?s1) = None"
    using first destroy_result [of ?s1 False] by simp
  then show ?thesis
    using st first by (simp add: off_calls_def)
qed

section \<open>Typing into a built text field\<close>

lemma type_values_frame:
  "component (type_values vs st) = component st \<and> data (type_values vs st) = data st \<and>
   timer (type_values vs st) = timer st \<and> clock (type_values vs st) = clock st \<and>
   emitted (type_values vs st) = emitted st \<and> events (type_values vs st) = events st"
  by (simp add: type_values_def)

lemma typed_new_text:
  "type_values [s] (fst (build new_text)) =
     new_text\<lparr>inputs := [\<lparr>el_node = 3, el_value = s\<rparr>], fresh := 6,
        eventHandlers := [\<lparr>h_type = ''change'', h_func = 4\<rparr>, \<lparr>h_type = ''keypress'', h_func = 5\<rparr>],
        dom_listeners := [(3, ''change'', 4), (3, ''keypress'', 5)]\<rparr>"
  by (simp add: build_new_text type_values_def)

theorem updateValue_notifies_witness:
  "data (updateValue False (type_values [''a''] (fst (build new_text)))) =
     [''name'' \<mapsto> JStr ''a''] \<and>
   get_prop (updateValue False (type_values [''a''] (fst (build new_text)))) ''name'' = JStr ''a'' \<and>
   timer (updateValue False (type_values [''a''] (fst (build new_text)))) = Some (200, False) \<and>
   emitted (updateValue False (type_values [''a''] (fst (build new_text)))) = []"
proof -
  let ?st = "type_values [''a''] (fst (build new_text))"
  have st: "component ?st = text_field \<and> data ?st = Map.empty \<and> timer ?st = None \<and>
            clock ?st = 0 \<and> emitted ?st = [] \<and> fst (getValue ?st) = JStr ''a'' \<and>
            get_prop ?st ''name'' = JUndefined"
    by (simp add: typed_new_text new_text_fields getValue_def get_prop_def via_proto_def
        plain_inherited_def object_members_def object_prototype_def text_field_def)
  show ?thesis
    using updateValue_notifies [of ?st False] st
    by (simp add: text_field_def strict_eq_def)
qed

lemma proto_text_fields:
  "component proto_text = text_field\<lparr>c_key := ''__proto__''\<rparr> \<and> data proto_text = Map.empty \<and>
   data_proto proto_text = object_prototype \<and> inherited proto_text = plain_inherited \<and>
   events proto_text \<and> timer proto_text = None \<and> emitted proto_text = [] \<and>
   clock proto_text = 0"
  by (simp add: proto_text_def init_def)

lemma build_proto_text:
  "build proto_text =
     (proto_text\<lparr>inputs := [\<lparr>el_node = 1, el_value = []\<rparr>], fresh := 4,
        eventHandlers := [\<lparr>h_type = ''change'', h_func = 2\<rparr>, \<lparr>h_type = ''keypress'', h_func = 3\<rparr>],
        dom_listeners := [(1, ''change'', 2), (1, ''keypress'', 3)]\<rparr>, None)"
  by (simp add: build_def createWrapper_def createInput_def addInput_def defaultValue_def
      plain_has_own proto_text_def init_def text_field_def run_defs
      cong: and_then_weak_cong let_weak_cong)

text \<open>
  Claim C3 as stated fails for a component whose key is \<^verbatim>\<open>__proto__\<close>: over a plain data
  object the entry reads as \<^verbatim>\<open>Object.prototype\<close>; the user types \<^verbatim>\<open>"a"\<close>, so that
  \<^verbatim>\<open>getValue()\<close> returns a different, truthy value, but the assignment of line 1012 is
  ignored: \<^verbatim>\<open>updateValue()\<close> writes nothing into the data object, the entry still reads as
  \<^verbatim>\<open>Object.prototype\<close>, and no notification is scheduled.
\<close>

theorem updateValue_proto_counterexample:
  "c_key (component (type_values [''a''] (fst (build proto_text)))) = ''__proto__'' \<and>
   get_prop (type_values [''a''] (fst (build proto_text))) ''__proto__'' = object_prototype \<and>
   truthy object_prototype \<and>
   fst (getValue (type_values [''a''] (fst (build proto_text)))) = JStr ''a'' \<and>
   \<not> strict_eq object_prototype (JStr ''a'') \<and>
   data (updateValue False (type_values [''a''] (fst (build proto_text)))) = Map.empty \<and>
   get_prop (updateValue False (type_values [''a''] (fst (build proto_text)))) ''__proto__''
     = object_prototype \<and>
   timer (updateValue False (type_values [''a''] (fst (build proto_text)))) = None"
  by (simp add: build_proto_text)
     (simp add: type_values_def updateValue_def getValue_def triggerChange_def get_prop_def
      set_prop_def strict_eq_def object_prototype_def proto_text_def init_def text_field_def
      Let_def cong: let_weak_cong)

section \<open>Debounced change notification\<close>

lemma advance_early:
  assumes "timer st = None \<or> (\<exists>nv. timer st = Some (clock st + 200, nv))" and "d < 200"
  shows "advance d st = st\<lparr>clock := clock st + d\<rparr>"
  using assms by (auto simp add: advance_def)

lemma advance_fires:
  assumes "timer st = Some (clock st + 200, nv)" and "events st"
  shows "advance 200 st =
           st\<lparr>clock := clock st + 200, timer := None,
              pristine := (if nv then pristine st else False),
              emitted := emitted st @ [(''formio.componentChange'', this_value st, \<not> nv)]\<rparr>"
  using assms by (simp add: advance_def onChange_def)

lemma getValue_cached:
  "c_input (component st) \<Longrightarrow> this_value (snd (getValue st)) = fst (getValue st)"
  by (simp add: getValue_def alloc_def split_def split: sum.splits)

text \<open>An input-bound component reads a string or an array from its inputs.\<close>

lemma getValue_loop_kind: "getValue_loop m xs acc = Inr v \<Longrightarrow> \<exists>s. v = JStr s"
  by (induction xs arbitrary: acc) (auto split: if_splits)

lemma getValue_kind:
  "c_input (component st) \<Longrightarrow>
   (\<exists>s. fst (getValue st) = JStr s) \<or> (\<exists>a. fst (getValue st) = JArr a)"
  by (auto simp add: getValue_def alloc_def split_def split: sum.splits dest: getValue_loop_kind)

lemma updateValue_read:
  "get_prop (updateValue nv st) (c_key (component st)) = written st"
  unfolding written_def
  by (rule get_prop_cong)
     (simp_all add: updateValue_def Let_def split_def triggerChange_def)

text \<open>
  When \<^verbatim>\<open>updateValue\<close> on an input-bound component reaches \<^verbatim>\<open>triggerChange\<close>, the entry
  reads as the value \<^verbatim>\<open>getValue\<close> returned: an assignment that is ignored leaves the entry
  as it was, and then nothing has changed.
\<close>

lemma written_notifies:
  assumes "c_input (component st)" and "notifies st"
  shows "written st = fst (getValue st)"
proof (cases "c_key (component st) = ''__proto__'' \<and> data st ''__proto__'' = None \<and>
              data_proto st \<noteq> JNull")
  case False
  then show ?thesis
    by (auto simp add: written_def set_prop_def get_prop_def getValue_frame split: option.splits)
next
  case True
  from getValue_kind [OF assms(1)] show ?thesis
  proof
    assume "\<exists>a. fst (getValue st) = JArr a"
    then show ?thesis
      by (auto simp add: written_def get_prop_set_prop_array)
  next
    assume "\<exists>s. fst (getValue st) = JStr s"
    then obtain s where s: "fst (getValue st) = JStr s" ..
    have "written st = get_prop st (c_key (component st))"
      using True s by (simp add: written_def set_prop_def get_prop_def getValue_frame)
    then have "\<not> notifies st"
      using True by (auto simp add: notifies_def Let_def strict_eq_def)
    then show ?thesis
      using assms(2) by simp
  qed
qed

text \<open>
  After a non-empty burst in which every call notifies and no pause reaches 200 ms, the
  timer is pending with the last call's argument and nothing has been emitted.
\<close>

lemma burst_pending:
  assumes "steps \<noteq> []" and "\<forall>s\<in>set steps. fst s < 200" and "all_notify steps st"
    and "timer st = None \<or> (\<exists>nv. timer st = Some (clock st + 200, nv))"
  shows "timer (burst steps st) = Some (clock (burst steps st) + 200, snd (snd (last steps))) \<and>
         emitted (burst steps st) = emitted st \<and>
         events (burst steps st) = events st \<and>
         component (burst steps st) = component st \<and>
         (c_input (component st) \<longrightarrow>
            get_prop (burst steps st) (c_key (component st)) = this_value (burst steps st))"
  using assms
proof (induction steps arbitrary: st)
  case Nil
  then show ?case by simp
next
  case (Cons step rest)
  obtain d vs nv where step: "step = (d, vs, nv)"
    by (cases step)
  let ?s1 = "advance d st"
  let ?s2 = "type_values vs ?s1"
  let ?s3 = "updateValue nv ?s2"
  have d: "d < 200"
    using Cons.prems(2) step by simp
  have s1: "?s1 = st\<lparr>clock := clock st + d\<rparr>"
    using Cons.prems(4) d by (rule advance_early)
  have n: "notifies ?s2"
    using Cons.prems(3) step by simp
  have t3: "timer ?s3 = Some (clock ?s3 + 200, nv)"
    using n by (simp add: updateValue_scheduled updateValue_frame)
  have f3: "emitted ?s3 = emitted st \<and> events ?s3 = events st \<and> component ?s3 = component st"
    by (simp add: updateValue_frame type_values_frame s1)
  have c2: "component ?s2 = component st"
    by (simp add: type_values_frame s1)
  have w3: "c_input (component st) \<longrightarrow>
              get_prop ?s3 (c_key (component st)) = this_value ?s3"
    using updateValue_read [of nv ?s2] written_notifies [OF _ n] getValue_cached [of ?s2] c2
    by (simp add: updateValue_frame)
  show ?case
  proof (cases "rest = []")
    case True
    then show ?thesis
      using t3 f3 w3 step by simp
  next
    case False
    have "timer (burst rest ?s3) = Some (clock (burst rest ?s3) + 200, snd (snd (last rest))) \<and>
          emitted (burst rest ?s3) = emitted ?s3 \<and>
          events (burst rest ?s3) = events ?s3 \<and>
          component (burst rest ?s3) = component ?s3 \<and>
          (c_input (component ?s3) \<longrightarrow>
             get_prop (burst rest ?s3) (c_key (component ?s3)) = this_value (burst rest ?s3))"
      using False Cons.prems(2,3) t3 step by (intro Cons.IH) simp_all
    then show ?thesis
      using False f3 step by simp
  qed
qed

text \<open>
  Claim C8, amended: on a component with an event hub and no notification pending, any
  number N \<ge> 1 of \<^verbatim>\<open>updateValue\<close> calls, each less than 200 ms after the one before and
  each changing what the entry under the key reads as without being stopped by the falsy
  guard, emits nothing while the burst lasts and exactly one \<^verbatim>\<open>componentChange\<close> once
  200 ms have passed after the last call. That event carries the instance's value as the
  last call left it (for an input-bound component, what the entry reads as after the last
  call) and the last call's validation flag; afterwards no notification is pending.
\<close>

theorem debounce_coalesces:
  assumes "events st" and "timer st = None" and "steps \<noteq> []"
    and "\<forall>s\<in>set steps. fst s < 200" and "all_notify steps st"
  shows "emitted (burst steps st) = emitted st \<and>
         emitted (advance 200 (burst steps st)) =
           emitted st @
             [(''formio.componentChange'', this_value (burst steps st), \<not> snd (snd (last steps)))] \<and>
         timer (advance 200 (burst steps st)) = None \<and>
         (c_input (component st) \<longrightarrow>
            get_prop (burst steps st) (c_key (component st)) = this_value (burst steps st))"
proof -
  let ?s = "burst steps st"
  have p: "timer ?s = Some (clock ?s + 200, snd (snd (last steps))) \<and>
           emitted ?s = emitted st \<and> events ?s = events st \<and> component ?s = component st \<and>
           (c_input (component st) \<longrightarrow>
              get_prop ?s (c_key (component st)) = this_value ?s)"
    using assms(3,4,5) assms(2) by (intro burst_pending) simp_all
  then have "events ?s"
    using assms(1) by simp
  with p have "advance 200 ?s =
      ?s\<lparr>clock := clock ?s + 200, timer := None,
         pristine := (if snd (snd (last steps)) then pristine ?s else False),
         emitted := emitted ?s @
           [(''formio.componentChange'', this_value ?s, \<not> snd (snd (last steps)))]\<rparr>"
    by (intro advance_fires) simp_all
  then show ?thesis
    using p by simp
qed

lemma built_text_quiet:
  "events (fst (build new_text)) \<and> timer (fst (build new_text)) = None \<and>
   emitted (fst (build new_text)) = [] \<and> c_input (component (fst (build new_text))) \<and>
   c_key (component (fst (build new_text))) = ''name''"
  by (simp add: build_new_text) (simp add: new_text_def init_def text_field_def)

lemma typing_abc_run:
  "all_notify typing_abc (fst (build new_text)) \<and>
   this_value (burst typing_abc (fst (build new_text))) = JStr ''abc''"
  by (simp add: build_new_text)
     (simp add: typing_abc_def advance_def type_values_def updateValue_def notifies_def
      written_def getValue_def triggerChange_def get_prop_def set_prop_def via_proto_def
      plain_inherited_def object_members_def object_prototype_def strict_eq_def
      new_text_def init_def text_field_def Let_def
      cong: let_weak_cong)

theorem debounce_coalesces_witness:
  "emitted (burst typing_abc (fst (build new_text))) = [] \<and>
   emitted (advance 200 (burst typing_abc (fst (build new_text)))) =
     [(''formio.componentChange'', JStr ''abc'', False)] \<and>
   timer (advance 200 (burst typing_abc (fst (build new_text)))) = None \<and>
   get_prop (burst typing_abc (fst (build new_text))) ''name'' = JStr ''abc''"
proof -
  have "\<forall>s\<in>set typing_abc. fst s < 200"
    by (simp add: typing_abc_def)
  moreover have "typing_abc \<noteq> []" and "snd (snd (last typing_abc))"
    by (simp_all add: typing_abc_def)
  ultimately show ?thesis
    using debounce_coalesces [of "fst (build new_text)" typing_abc]
      built_text_quiet typing_abc_run
    by simp
qed

lemma build_zero_text:
  "build zero_text =
     (zero_text\<lparr>fresh := 4, inputs := [\<lparr>el_node = 1, el_value = ''0''\<rparr>],
        this_value := JNum 0,
        eventHandlers := [\<lparr>h_type = ''change'', h_func = 2\<rparr>, \<lparr>h_type = ''keypress'', h_func = 3\<rparr>],
        dom_listeners := [(1, ''change'', 2), (1, ''keypress'', 3)]\<rparr>, None)"
  by (simp add: build_def createWrapper_def createInput_def addInput_def defaultValue_def
      setValue_def setValueAt_def plain_has_own get_prop_def js_string_def decimal.simps
      zero_text_def init_def text_field_def run_defs cong: and_then_weak_cong let_weak_cong)

text \<open>
  Claim C8 as stated fails for N = 1 when the falsy guard stops the notification: the
  text field built over \<^verbatim>\<open>{name: 0}\<close> has a hub and nothing pending; the user empties the
  input and \<^verbatim>\<open>updateValue()\<close> changes the entry from 0 to the empty string, yet nothing
  is emitted, not even after 200 ms.
\<close>

theorem debounce_falsy_counterexample:
  "events (fst (build zero_text)) \<and>
   timer (fst (build zero_text)) = None \<and>
   get_prop (fst (build zero_text)) ''name'' = JNum 0 \<and>
   get_prop (burst [(0, [[]], False)] (fst (build zero_text))) ''name'' = JStr [] \<and>
   emitted (advance 200 (burst [(0, [[]], False)] (fst (build zero_text)))) = []"
  by (simp add: build_zero_text)
     (simp add: advance_def type_values_def updateValue_def getValue_def triggerChange_def
      get_prop_def set_prop_def strict_eq_def zero_text_def init_def text_field_def Let_def
      cong: let_weak_cong)

section \<open>Requiring an external library\<close>

lemma inject_frame:
  "externalLibraries (fst (inject ls pg)) = externalLibraries pg \<and>
   registry_proto (fst (inject ls pg)) = registry_proto pg \<and>
   next_id (fst (inject ls pg)) = next_id pg"
  by (induction ls arbitrary: pg) (simp_all split: lib.splits)

lemma inject_head:
  "\<exists>k\<le>length ls. doc_head (fst (inject ls pg)) = doc_head pg @ map element_of (take k ls)"
proof (induction ls arbitrary: pg)
  case Nil
  show ?case by simp
next
  case (Cons l rest)
  have stop: "\<exists>k\<le>length (l # rest). doc_head pg = doc_head pg @ map element_of (take k (l # rest))"
    by (rule exI [of _ 0]) simp
  have go: "\<exists>k\<le>length (l # rest).
              doc_head (fst (inject rest (pg\<lparr>doc_head := doc_head pg @ [element_of l]\<rparr>))) =
              doc_head pg @ map element_of (take k (l # rest))"
  proof -
    obtain k where "k \<le> length rest"
      and "doc_head (fst (inject rest (pg\<lparr>doc_head := doc_head pg @ [element_of l]\<rparr>))) =
           doc_head (pg\<lparr>doc_head := doc_head pg @ [element_of l]\<rparr>) @ map element_of (take k rest)"
      using Cons [of "pg\<lparr>doc_head := doc_head pg @ [element_of l]\<rparr>"] by blast
    then show ?thesis
      by (intro exI [of _ "Suc k"]) simp
  qed
  show ?case
    using stop go by (cases l) (auto simp del: take_Suc_Cons)
qed

text \<open>
  While the registry has no entry called \<^verbatim>\<open>hasOwnProperty\<close>, a later request for a known
  name returns its promise and changes nothing.
\<close>

lemma requireLibrary_known:
  "externalLibraries pg ''hasOwnProperty'' = None \<Longrightarrow> externalLibraries pg name = Some f \<Longrightarrow>
   requireLibrary name p s b pg = (pg, Inr f)"
  by (simp add: requireLibrary_def)

text \<open>What a request for the name \<open>n\<close> leaves of the own properties of the registry.\<close>

lemma requireLibrary_entries:
  "externalLibraries (fst (requireLibrary n p s b pg)) = externalLibraries pg \<or>
   (n \<noteq> ''__proto__'' \<and> externalLibraries pg n = None \<and>
    externalLibraries (fst (requireLibrary n p s b pg)) = (externalLibraries pg)(n \<mapsto> next_id pg))"
  by (simp add: requireLibrary_def new_entry_def Let_def resolve_def inject_frame split_def
      split: option.splits)

text \<open>
  No request for a name other than \<^verbatim>\<open>hasOwnProperty\<close> changes the promise of a known name
  or creates an entry called \<^verbatim>\<open>hasOwnProperty\<close>.
\<close>

lemma requireLibrary_keeps:
  assumes "externalLibraries pg name = Some f" and "externalLibraries pg ''hasOwnProperty'' = None"
    and "n \<noteq> ''hasOwnProperty''"
  shows "externalLibraries (fst (requireLibrary n p s b pg)) name = Some f \<and>
         externalLibraries (fst (requireLibrary n p s b pg)) ''hasOwnProperty'' = None"
  using requireLibrary_entries [of n p s b pg] assms by auto

lemma requireAll_keeps:
  "externalLibraries pg name = Some f \<Longrightarrow> externalLibraries pg ''hasOwnProperty'' = None \<Longrightarrow>
   \<forall>c\<in>set calls. fst c \<noteq> ''hasOwnProperty'' \<Longrightarrow>
   externalLibraries (requireAll calls pg) name = Some f \<and>
   externalLibraries (requireAll calls pg) ''hasOwnProperty'' = None"
proof (induction calls arbitrary: pg)
  case Nil
  then show ?case by simp
next
  case (Cons c rest)
  obtain n p s b where c: "c = (n, p, s, b)"
    by (cases c)
  have n: "n \<noteq> ''hasOwnProperty''"
    using Cons.prems(3) c by simp
  from requireLibrary_keeps [OF Cons.prems(1,2) n, of p s b]
  have "externalLibraries (requireAll rest (fst (requireLibrary n p s b pg))) name = Some f \<and>
        externalLibraries (requireAll rest (fst (requireLibrary n p s b pg))) ''hasOwnProperty'' = None"
    using Cons.prems(3) by (intro Cons.IH) simp_all
  then show ?case
    using c by simp
qed

text \<open>The first request for a name that becomes an own property of the registry.\<close>

lemma requireLibrary_first:
  assumes "externalLibraries pg name = None" and "externalLibraries pg ''hasOwnProperty'' = None"
    and "name \<noteq> ''__proto__''"
  shows "externalLibraries (fst (requireLibrary name p s b pg)) =
           (externalLibraries pg)(name \<mapsto> next_id pg) \<and>
         registry_proto (fst (requireLibrary name p s b pg)) = registry_proto pg \<and>
         (snd (requireLibrary name p s b pg) = Inr (next_id pg) \<or>
          isl (snd (requireLibrary name p s b pg))) \<and>
         (\<exists>k\<le>length (src_list s).
            doc_head (fst (requireLibrary name p s b pg)) =
              doc_head pg @ map element_of (take k (src_list s)))"
proof -
  define p1 where "p1 = pg\<lparr>externalLibraries := (externalLibraries pg)(name \<mapsto> next_id pg),
                            next_id := Suc (next_id pg)\<rparr>"
  define p2 where "p2 = (if b then p1
                         else if truthy (window_props p1 (name @ ''Callback'')) then p1
                         else p1\<lparr>window_props := (window_props p1)(name @ ''Callback'' := JFun (next_id p1)),
                                 next_id := Suc (next_id p1)\<rparr>)"
  have p2: "externalLibraries p2 = (externalLibraries pg)(name \<mapsto> next_id pg) \<and>
            registry_proto p2 = registry_proto pg \<and> doc_head p2 = doc_head pg"
    by (simp add: p2_def p1_def)
  have r: "requireLibrary name p s b pg =
             (if truthy (window_props p2 p) then (resolve (next_id pg) (window_props p2 p) p2, Inr (next_id pg))
              else (case inject (src_list s) p2 of
                      (p3, Some e) \<Rightarrow> (p3, Inl e)
                    | (p3, None) \<Rightarrow>
                        ((if b then p3\<lparr>polls := polls p3 @ [(name, p)]\<rparr> else p3), Inr (next_id pg))))"
    using assms by (simp add: requireLibrary_def new_entry_def Let_def p2_def p1_def)
  show ?thesis
  proof (cases "truthy (window_props p2 p)")
    case True
    have "\<exists>k\<le>length (src_list s). doc_head pg = doc_head pg @ map element_of (take k (src_list s))"
      by (rule exI [of _ 0]) simp
    then show ?thesis
      using True r p2 by (simp add: resolve_def split: option.splits)
  next
    case False
    obtain p3 e where i: "inject (src_list s) p2 = (p3, e)"
      by (cases "inject (src_list s) p2")
    have f: "externalLibraries p3 = externalLibraries p2 \<and> registry_proto p3 = registry_proto p2"
      using inject_frame [of "src_list s" p2] i by simp
    have h: "\<exists>k\<le>length (src_list s). doc_head p3 = doc_head pg @ map element_of (take k (src_list s))"
      using inject_head [of "src_list s" p2] i p2 by simp
    show ?thesis
      using False r i f h p2 by (cases e) simp_all
  qed
qed

text \<open>
  Claim C9, amended: for every library name other than \<^verbatim>\<open>__proto__\<close> and
  \<^verbatim>\<open>hasOwnProperty\<close>, and as long as no library called \<^verbatim>\<open>hasOwnProperty\<close> is in the registry
  or is required, the first \<^verbatim>\<open>requireLibrary\<close> call for the name adds exactly one entry to
  the registry, with a new promise; it returns that promise unless it throws; and it
  appends to the document head each resource of \<^verbatim>\<open>src\<close> at most once, in order (none when
  the plugin is already there, a prefix when an entry of \<^verbatim>\<open>src\<close> makes it throw). After
  any further calls of \<^verbatim>\<open>requireLibrary\<close>, a call with the same name returns that same
  promise and changes nothing: no registry entry, no injected element, no timer.
\<close>

theorem requireLibrary_once:
  assumes "externalLibraries pg name = None" and "externalLibraries pg ''hasOwnProperty'' = None"
    and "name \<noteq> ''__proto__''" and "name \<noteq> ''hasOwnProperty''"
    and "\<forall>c\<in>set calls. fst c \<noteq> ''hasOwnProperty''"
  shows "externalLibraries (fst (requireLibrary name p s b pg)) =
           (externalLibraries pg)(name \<mapsto> next_id pg) \<and>
         registry_proto (fst (requireLibrary name p s b pg)) = registry_proto pg \<and>
         (snd (requireLibrary name p s b pg) = Inr (next_id pg) \<or>
          isl (snd (requireLibrary name p s b pg))) \<and>
         (\<exists>k\<le>length (src_list s).
            doc_head (fst (requireLibrary name p s b pg)) =
              doc_head pg @ map element_of (take k (src_list s))) \<and>
         requireLibrary name p' s' b' (requireAll calls (fst (requireLibrary name p s b pg))) =
           (requireAll calls (fst (requireLibrary name p s b pg)), Inr (next_id pg))"
proof -
  let ?pg1 = "fst (requireLibrary name p s b pg)"
  note first = requireLibrary_first [OF assms(1,2,3), of p s b]
  then have "externalLibraries ?pg1 name = Some (next_id pg)"
    and "externalLibraries ?pg1 ''hasOwnProperty'' = None"
    using assms(2,4) by simp_all
  then have "externalLibraries (requireAll calls ?pg1) name = Some (next_id pg) \<and>
             externalLibraries (requireAll calls ?pg1) ''hasOwnProperty'' = None"
    using assms(5) by (rule requireAll_keeps)
  then have "requireLibrary name p' s' b' (requireAll calls ?pg1) =
               (requireAll calls ?pg1, Inr (next_id pg))"
    by (intro requireLibrary_known) simp_all
  with first show ?thesis
    by simp
qed

lemma first_request_result:
  "first_request =
     (empty_page\<lparr>externalLibraries := [''signaturepad'' \<mapsto> 0],
        window_props := (\<lambda>p. JUndefined)(''signaturepadCallback'' := JFun 1),
        doc_head := [(''script'', ''signature_pad.js'')], next_id := 2\<rparr>, Inr 0)"
  by (simp add: first_request_def requireLibrary_def new_entry_def src_list_def element_of_def
      empty_page_def Let_def)

theorem requireLibrary_once_witness:
  "externalLibraries (fst first_request) ''signaturepad'' = Some 0 \<and>
   snd first_request = Inr 0 \<and>
   doc_head (fst first_request) = [(''script'', ''signature_pad.js'')] \<and>
   requireLibrary ''signaturepad'' ''SignaturePad'' (One (LibUrl ''signature_pad.js'')) False
       (requireAll [(''ace'', ''ace'', One (LibUrl ''ace.js''), True)] (fst first_request)) =
     (requireAll [(''ace'', ''ace'', One (LibUrl ''ace.js''), True)] (fst first_request), Inr 0)"
  using requireLibrary_once [of empty_page "''signaturepad''"
      "[(''ace'', ''ace'', One (LibUrl ''ace.js''), True)]" "''SignaturePad''"
      "One (LibUrl ''signature_pad.js'')" False "''SignaturePad''"
      "One (LibUrl ''signature_pad.js'')" False]
  by (simp add: first_request_def [symmetric]) (simp add: first_request_result empty_page_def)

text \<open>
  Claim C9 as stated fails for a library named \<^verbatim>\<open>__proto__\<close>: the assignment of line 1281
  replaces the prototype of the registry and creates no own property, so the second
  request finds no entry either. It makes a second promise, returns it instead of the
  first, and injects the script a second time.
\<close>

theorem requireLibrary_proto_counterexample:
  "snd (proto_request empty_page) = Inr 0 \<and>
   externalLibraries (fst (proto_request empty_page)) = Map.empty \<and>
   doc_head (fst (proto_request empty_page)) = [(''script'', ''lib.js'')] \<and>
   snd (proto_request (fst (proto_request empty_page))) = Inr 2 \<and>
   registry_proto (fst (proto_request (fst (proto_request empty_page)))) = Some 2 \<and>
   doc_head (fst (proto_request (fst (proto_request empty_page)))) =
     [(''script'', ''lib.js''), (''script'', ''lib.js'')]"
proof -
  have first: "proto_request empty_page =
      (empty_page\<lparr>registry_proto := Some 0,
         window_props := (\<lambda>p. JUndefined)(''__proto__Callback'' := JFun 1),
         doc_head := [(''script'', ''lib.js'')], next_id := 2\<rparr>, Inr 0)"
    by (simp add: proto_request_def requireLibrary_def new_entry_def src_list_def element_of_def
        empty_page_def Let_def)
  show ?thesis
    unfolding first
    by (simp add: proto_request_def requireLibrary_def new_entry_def src_list_def element_of_def
        empty_page_def Let_def)
qed

end
